theory Spec2Isabelle
  imports Main "HOL-Library.Sublist"
begin

section \<open>Paths, the filesystem, the environment\<close>

text \<open>
  The builder (\<^verbatim>\<open>src/pip_build_standalone/build.py\<close>) is glue around the filesystem
  and around external commands. The filesystem is a tree of regular files and
  directories (no symbolic links); a directory is an association list from names to
  nodes, read with \<open>map_of\<close> (the first entry of a name is the entry). File contents
  are byte strings; HOL's \<open>char\<close> is a byte, so \<open>str.encode()\<close> is the identity.
\<close>

type_synonym bytes = string

type_synonym path = "string list"

datatype node = File bytes | Dir "(string \<times> node) list"

text \<open>
  A \<^verbatim>\<open>pathlib.Path\<close> (and a path or pattern string handed to \<^verbatim>\<open>glob\<close>) is kept as
  its components, absolute or relative to the working directory.
\<close>

datatype pypath = AbsPath "string list" | RelPath "string list"

fun parts :: "pypath \<Rightarrow> string list" where
  "parts (AbsPath ps) = ps"
| "parts (RelPath ps) = ps"

fun join_bytes :: "bytes \<Rightarrow> bytes list \<Rightarrow> bytes" where
  "join_bytes sep [] = []"
| "join_bytes sep [s] = s"
| "join_bytes sep (s # t # ts) = s @ sep @ join_bytes sep (t # ts)"

text \<open>\<^verbatim>\<open>str(path)\<close>.\<close>

fun str_path :: "pypath \<Rightarrow> string" where
  "str_path (AbsPath ps) = CHR ''/'' # join_bytes ''/'' ps"
| "str_path (RelPath ps) = (if ps = [] then ''.'' else join_bytes ''/'' ps)"

text \<open>\<^verbatim>\<open>path / name\<close>, \<^verbatim>\<open>os.path.join(path, name)\<close> and \<^verbatim>\<open>f"{path}/name"\<close>.\<close>

fun child :: "pypath \<Rightarrow> string \<Rightarrow> pypath" where
  "child (AbsPath ps) name = AbsPath (ps @ [name])"
| "child (RelPath ps) name = RelPath (ps @ [name])"

datatype error =
    FileExistsError string
  | FileNotFoundError string
  | CalledProcessError "string list"
  | ValueError

text \<open>\<^verbatim>\<open>Path(p).relative_to(root)\<close>: raises \<^verbatim>\<open>ValueError\<close> unless \<open>p\<close> is under \<open>root\<close>.\<close>

fun relative_to :: "pypath \<Rightarrow> pypath \<Rightarrow> error + pypath" where
  "relative_to (AbsPath ps) (AbsPath rs) =
     (if prefix rs ps then Inr (RelPath (drop (length rs) ps)) else Inl ValueError)"
| "relative_to (RelPath ps) (RelPath rs) =
     (if prefix rs ps then Inr (RelPath (drop (length rs) ps)) else Inl ValueError)"
| "relative_to p root = Inl ValueError"

text \<open>
  What the code reads from outside itself: the working directory, \<^verbatim>\<open>glob.glob\<close>
  (on the current filesystem, with its \<^verbatim>\<open>recursive\<close> flag), what an external command
  does (whether it exits with status zero, and the filesystem it leaves), and
  \<^verbatim>\<open>sys.platform\<close>. Every theorem holds for every such environment.
\<close>

record env =
  cwd :: path
  glob :: "node \<Rightarrow> bool \<Rightarrow> pypath \<Rightarrow> pypath list"
  tool :: "string list \<Rightarrow> node \<Rightarrow> bool \<times> node"
  platform :: string

text \<open>
  The messages of the code, by kind, with the values their f-strings print:
  \<^item> \<open>Blank\<close>: \<^verbatim>\<open>info()\<close>;
  \<^item> \<open>FoundDylib p\<close>: "Found macos dylib, will update its id to remove any absolute paths: p";
  \<^item> \<open>Replacing globs old new\<close>: "Replacing all absolute paths in: globs: `old` -> `new`";
  \<^item> \<open>SanityChecking\<close>: "Sanity checking if any absolute paths remain...";
  \<^item> \<open>MatchesFound n old\<close>: "Found n matches of `old` in binary files (see above)";
  \<^item> \<open>NoPathsFound\<close>: "Great! No absolute paths found in the installed files.";
  \<^item> \<open>Removed p\<close>: "Removed: p";
  \<^item> \<open>Created pkgs dir\<close>: "Created standalone Python environment for packages pkgs at: dir".
\<close>

datatype message =
    Blank
  | FoundDylib string
  | Replacing "string list" string string
  | SanityChecking
  | MatchesFound nat string
  | NoPathsFound
  | Removed path
  | Created "string list" string

text \<open>
  What a run does besides changing the filesystem: the external commands it runs, the
  messages it prints, and the files it writes.
\<close>

datatype event =
    Ran "string list"
  | Info message
  | Warn message
  | Success message
  | Wrote path

record world =
  fs :: node
  trace :: "event list"

definition locate :: "env \<Rightarrow> pypath \<Rightarrow> path" where
  "locate e p = (case p of AbsPath ps \<Rightarrow> ps | RelPath ps \<Rightarrow> cwd e @ ps)"

text \<open>\<^verbatim>\<open>Path.resolve()\<close>.\<close>

definition resolve :: "env \<Rightarrow> pypath \<Rightarrow> pypath" where
  "resolve e p = AbsPath (locate e p)"

fun lookup :: "node \<Rightarrow> path \<Rightarrow> node option" where
  "lookup n [] = Some n"
| "lookup (File b) (x # xs) = None"
| "lookup (Dir es) (x # xs) = (case map_of es x of None \<Rightarrow> None | Some c \<Rightarrow> lookup c xs)"

definition read_file :: "node \<Rightarrow> path \<Rightarrow> bytes option" where
  "read_file t p = (case lookup t p of Some (File b) \<Rightarrow> Some b | _ \<Rightarrow> None)"

definition is_dir :: "node \<Rightarrow> path \<Rightarrow> bool" where
  "is_dir t p = (case lookup t p of Some (Dir es) \<Rightarrow> True | _ \<Rightarrow> False)"

text \<open>\<^verbatim>\<open>Path.exists()\<close>.\<close>

definition path_exists :: "env \<Rightarrow> node \<Rightarrow> pypath \<Rightarrow> bool" where
  "path_exists e t p = (lookup t (locate e p) \<noteq> None)"

text \<open>The tree with the node at a path replaced by its image under \<open>f\<close>.\<close>

fun modify_at :: "(node \<Rightarrow> node) \<Rightarrow> path \<Rightarrow> node \<Rightarrow> node" where
  "modify_at f [] n = f n"
| "modify_at f (x # xs) (File b) = File b"
| "modify_at f (x # xs) (Dir es) =
     Dir (map (\<lambda>(n, c). if n = x then (n, modify_at f xs c) else (n, c)) es)"

text \<open>Writing an existing file anew: \<^verbatim>\<open>open(path, "wb").write(content)\<close>.\<close>

definition write_file :: "node \<Rightarrow> path \<Rightarrow> bytes \<Rightarrow> node" where
  "write_file t p content = modify_at (\<lambda>n. case n of File b \<Rightarrow> File content | Dir es \<Rightarrow> Dir es) p t"

text \<open>
  Modelled from the spec: \<^verbatim>\<open>info\<close>, \<^verbatim>\<open>warn\<close> and \<^verbatim>\<open>success\<close> of
  \<^verbatim>\<open>pip_build_standalone.cli_utils\<close> are not among the sources. They are the spec's
  logging helpers: each reports its message to the operator and does nothing else.
\<close>

definition info :: "message \<Rightarrow> world \<Rightarrow> world" where
  "info m w = w\<lparr>trace := trace w @ [Info m]\<rparr>"

definition warn :: "message \<Rightarrow> world \<Rightarrow> world" where
  "warn m w = w\<lparr>trace := trace w @ [Warn m]\<rparr>"

definition success :: "message \<Rightarrow> world \<Rightarrow> world" where
  "success m w = w\<lparr>trace := trace w @ [Success m]\<rparr>"

text \<open>
  Modelled from the spec: \<^verbatim>\<open>pip_build_standalone.cli_utils.run\<close> is not among the
  sources. The spec's Process Runner "executes external commands, streams/captures
  output, raises on non-zero exit".
\<close>

definition run :: "env \<Rightarrow> string list \<Rightarrow> world \<Rightarrow> error option \<times> world" where
  "run e cmd w =
     (let (ok, t) = tool e cmd (fs w);
          w1 = \<lparr>fs = t, trace = trace w @ [Ran cmd]\<rparr>
      in (if ok then None else Some (CalledProcessError cmd), w1))"

section \<open>The Path Search-Replace Engine\<close>

text \<open>
  \<^verbatim>\<open>pip_build_standalone/search_replace_files.py\<close>, which holds
  \<^verbatim>\<open>search_replace_in_files\<close>, is not among the sources: this section is modelled from
  the spec (4.3). There the engine "expands each glob pattern (supporting recursive
  wildcard matching) into concrete file paths, unions the results", "opens each file
  in raw byte mode", "scans file content for occurrences of old_bytes"; if new_bytes
  is non-null it "replaces every occurrence with new_bytes and writes the modified
  content back to the same file", and "only files containing at least one match are
  rewritten"; if new_bytes is null it "counts occurrences but writes nothing"; it
  "returns the total occurrence count across all scanned files".
\<close>

text \<open>
  Modelled from the spec: "counts occurrences". \<^verbatim>\<open>search_replace_files.py\<close> is missing;
  occurrences are counted as Python's \<^verbatim>\<open>bytes.count\<close> counts them, in one scan from
  the left that goes on behind each occurrence found.
\<close>

function count_scan :: "bytes \<Rightarrow> bytes \<Rightarrow> nat" where
  "count_scan old [] = 0"
| "count_scan old (x # xs) =
     (if old \<noteq> [] \<and> prefix old (x # xs)
      then Suc (count_scan old (drop (length old) (x # xs)))
      else count_scan old xs)"
  by pat_completeness auto
termination
  by (relation "measure (\<lambda>(old, xs). length xs)") auto

text \<open>
  Modelled from the spec: "replaces every occurrence with new_bytes ... preserving all
  other bytes exactly". \<^verbatim>\<open>search_replace_files.py\<close> is missing; the occurrences
  replaced are those the scan counts, as with Python's \<^verbatim>\<open>bytes.replace\<close>.
\<close>

function replace_scan :: "bytes \<Rightarrow> bytes \<Rightarrow> bytes \<Rightarrow> bytes" where
  "replace_scan old new [] = []"
| "replace_scan old new (x # xs) =
     (if old \<noteq> [] \<and> prefix old (x # xs)
      then new @ replace_scan old new (drop (length old) (x # xs))
      else x # replace_scan old new xs)"
  by pat_completeness auto
termination
  by (relation "measure (\<lambda>(old, new, xs). length xs)") auto

text \<open>
  Modelled from the spec: the count and the replacement of the missing
  \<^verbatim>\<open>search_replace_files.py\<close> for any \<open>old_bytes\<close>. The spec does not say what an empty
  \<open>old_bytes\<close> does; the model follows Python: the empty sequence occurs before every
  byte and at the end.
\<close>

definition count_bytes :: "bytes \<Rightarrow> bytes \<Rightarrow> nat" where
  "count_bytes old content =
     (if old = [] then length content + 1 else count_scan old content)"

definition replace_bytes :: "bytes \<Rightarrow> bytes \<Rightarrow> bytes \<Rightarrow> bytes" where
  "replace_bytes old new content =
     (if old = [] then new @ concat (map (\<lambda>b. b # new) content)
      else replace_scan old new content)"

text \<open>
  Modelled from the spec: the file set of the missing \<^verbatim>\<open>search_replace_files.py\<close>,
  "the result of expanding one or more glob patterns", the results "unioned": each
  file once.
\<close>

definition file_set :: "env \<Rightarrow> node \<Rightarrow> pypath list \<Rightarrow> path list" where
  "file_set e t glob_patterns =
     remdups (map (locate e) (concat (map (glob e t True) glob_patterns)))"

text \<open>
  Modelled from the spec: what the missing \<^verbatim>\<open>search_replace_in_files\<close> does with one
  path of the file set. A regular file is read and its occurrences are counted; in
  replace mode it is written back if it has at least one. A path that is no regular
  file (a directory the pattern matched) is passed over.
\<close>

definition scan_file :: "bytes \<Rightarrow> bytes option \<Rightarrow> path \<Rightarrow> world \<Rightarrow> nat \<times> world" where
  "scan_file old_bytes new_bytes p w =
     (case read_file (fs w) p of
        None \<Rightarrow> (0, w)
      | Some content \<Rightarrow>
          (let matches = count_bytes old_bytes content in
           if matches = 0 then (0, w)
           else (case new_bytes of
                   None \<Rightarrow> (matches, w)
                 | Some nb \<Rightarrow>
                     (matches,
                      w\<lparr>fs := write_file (fs w) p (replace_bytes old_bytes nb content),
                        trace := trace w @ [Wrote p]\<rparr>))))"

text \<open>
  Modelled from the spec: the loop of the missing \<^verbatim>\<open>search_replace_in_files\<close> over the
  file set, one file at a time, adding up the counts.
\<close>

fun scan_files :: "bytes \<Rightarrow> bytes option \<Rightarrow> path list \<Rightarrow> nat \<Rightarrow> world \<Rightarrow> nat \<times> world" where
  "scan_files old_bytes new_bytes [] total_matches w = (total_matches, w)"
| "scan_files old_bytes new_bytes (p # ps) total_matches w =
     (let (matches, w1) = scan_file old_bytes new_bytes p w
      in scan_files old_bytes new_bytes ps (total_matches + matches) w1)"

text \<open>
  Modelled from the spec: \<^verbatim>\<open>search_replace_in_files\<close> itself (missing with
  \<^verbatim>\<open>search_replace_files.py\<close>), the spec's
  \<^verbatim>\<open>search_replace(glob_patterns, old_bytes, new_bytes | null) -> match count\<close>.
\<close>

definition search_replace_in_files ::
  "env \<Rightarrow> pypath list \<Rightarrow> bytes \<Rightarrow> bytes option \<Rightarrow> world \<Rightarrow> nat \<times> world" where
  "search_replace_in_files e glob_patterns old_bytes new_bytes w =
     scan_files old_bytes new_bytes (file_set e (fs w) glob_patterns) 0 w"

text \<open>
  To say what a replacement is without the scan that makes it: the content cut at the
  occurrences found, into the pieces between them; the pieces joined again
  (\<open>join_bytes\<close>) by \<open>old_bytes\<close> are the content, joined by \<open>new_bytes\<close> they are the
  replacement.
\<close>

function split_bytes :: "bytes \<Rightarrow> bytes \<Rightarrow> bytes list" where
  "split_bytes old [] = [[]]"
| "split_bytes old (x # xs) =
     (if old \<noteq> [] \<and> prefix old (x # xs)
      then [] # split_bytes old (drop (length old) (x # xs))
      else (x # hd (split_bytes old xs)) # tl (split_bytes old xs))"
  by pat_completeness auto
termination
  by (relation "measure (\<lambda>(old, xs). length xs)") auto

section \<open>The builder\<close>

text \<open>
  \<^verbatim>\<open>clean_pycache_dirs\<close>: \<^verbatim>\<open>os.walk\<close> visits a directory, hands the loop body the names
  of its subdirectories, and then descends into each of them that is still a
  directory (a name that is gone by then is skipped silently). The body removes the
  subdirectory named \<^verbatim>\<open>__pycache__\<close>, if there is one, with \<^verbatim>\<open>shutil.rmtree\<close>, and
  prints its path. \<open>walk dirpath n\<close> is the walk of the tree \<open>n\<close> found at \<open>dirpath\<close>:
  the tree it leaves and the paths removed, in the order of their removal.
\<close>

definition dirnames :: "(string \<times> node) list \<Rightarrow> string list" where
  "dirnames es =
     filter (\<lambda>name. case map_of es name of Some (Dir d) \<Rightarrow> True | _ \<Rightarrow> False) (remdups (map fst es))"

fun walk :: "path \<Rightarrow> node \<Rightarrow> node \<times> path list" where
  "walk dirpath (File b) = (File b, [])"
| "walk dirpath (Dir es) =
     (let found = (''__pycache__'' \<in> set (dirnames es));
          rs = map (\<lambda>(name, c). (name, walk (dirpath @ [name]) c))
                 (filter (\<lambda>(name, c). \<not> (found \<and> name = ''__pycache__'')) es)
      in (Dir (map (\<lambda>(name, r). (name, fst r)) rs),
          (if found then [dirpath @ [''__pycache__'']] else []) @
          concat (map (\<lambda>(name, r). snd r) rs)))"

definition clean_pycache_dirs :: "env \<Rightarrow> pypath \<Rightarrow> world \<Rightarrow> world" where
  "clean_pycache_dirs e dir_path w =
     (case lookup (fs w) (locate e dir_path) of
        None \<Rightarrow> w
      | Some n \<Rightarrow>
          w\<lparr>fs := modify_at (\<lambda>n. fst (walk (locate e dir_path) n)) (locate e dir_path) (fs w),
            trace := trace w @ map (\<lambda>p. Info (Removed p)) (snd (walk (locate e dir_path) n))\<rparr>)"

text \<open>
  \<^verbatim>\<open>update_macos_dylib_ids\<close>: the glob is expanded once, before the loop; an
  exception (of \<^verbatim>\<open>relative_to\<close> or of \<^verbatim>\<open>run\<close>) ends the loop.
\<close>

fun update_dylibs :: "env \<Rightarrow> pypath \<Rightarrow> pypath list \<Rightarrow> world \<Rightarrow> error option \<times> world" where
  "update_dylibs e python_root [] w = (None, w)"
| "update_dylibs e python_root (dylib_path # rest) w =
     (let w1 = info (FoundDylib (str_path dylib_path)) w in
      case relative_to dylib_path python_root of
        Inl err \<Rightarrow> (Some err, w1)
      | Inr rel_path \<Rightarrow>
          (case run e [''install_name_tool'', ''-id'',
                       ''@executable_path/../'' @ str_path rel_path,
                       str_path dylib_path] w1 of
             (Some err, w2) \<Rightarrow> (Some err, w2)
           | (None, w2) \<Rightarrow> update_dylibs e python_root rest w2))"

definition update_macos_dylib_ids :: "env \<Rightarrow> pypath \<Rightarrow> world \<Rightarrow> error option \<times> world" where
  "update_macos_dylib_ids e python_root w =
     (let glob_pattern = child (child (child python_root ''lib'') ''**'') ''*.dylib''
      in update_dylibs e python_root (glob e (fs w) True glob_pattern) w)"

definition replace_absolute_paths :: "env \<Rightarrow> pypath \<Rightarrow> string \<Rightarrow> string \<Rightarrow> world \<Rightarrow> world" where
  "replace_absolute_paths e python_root old_path_str new_path_str w =
     (let text_glob = [child (child python_root ''bin'') ''*'',
                       child (child (child python_root ''lib'') ''**'') ''*.py''];
          w1 = info Blank w;
          w2 = info (Replacing (map str_path text_glob) old_path_str new_path_str) w1;
          (replaced, w3) = search_replace_in_files e text_glob old_path_str (Some new_path_str) w2;
          w4 = info Blank w3;
          w5 = info SanityChecking w4;
          all_files_glob = [child (child python_root ''**'') ''*''];
          (matches, w6) = search_replace_in_files e all_files_glob old_path_str None w5
      in if matches \<noteq> 0 then warn (MatchesFound matches old_path_str) w6
         else info NoPathsFound w6)"

definition build_python_env ::
  "env \<Rightarrow> string list \<Rightarrow> pypath \<Rightarrow> string \<Rightarrow> bool \<Rightarrow> world \<Rightarrow> error option \<times> world" where
  "build_python_env e package_list target_dir python_version force w =
     (let target_absolute = resolve e target_dir in
      if path_exists e (fs w) target_dir \<and> \<not> force
      then (Some (FileExistsError (str_path target_dir)), w)
      else
        (case run e [''uv'', ''python'', ''install'', ''--managed-python'', ''--install-dir'',
                     str_path target_absolute, python_version] w of
           (Some err, w1) \<Rightarrow> (Some err, w1)
         | (None, w1) \<Rightarrow>
             (let install_root_pat = child target_dir (''cpython-'' @ python_version @ ''.*'');
                  install_root_paths = glob e (fs w1) False install_root_pat
              in case install_root_paths of
                   [] \<Rightarrow> (Some (FileNotFoundError (str_path install_root_pat)), w1)
                 | install_root # others \<Rightarrow>
                     (let pip_path = child (child install_root ''bin'') ''pip'' in
                      if \<not> path_exists e (fs w1) pip_path
                      then (Some (FileNotFoundError (str_path pip_path)), w1)
                      else
                        (case run e ([''uv'', ''pip'', ''install''] @ package_list @
                                     [''--python'', str_path install_root,
                                      ''--break-system-packages'']) w1 of
                           (Some err, w2) \<Rightarrow> (Some err, w2)
                         | (None, w2) \<Rightarrow>
                             (let w3 = clean_pycache_dirs e target_absolute w2 in
                              case (if platform e = ''darwin''
                                    then update_macos_dylib_ids e install_root w3
                                    else (None, w3)) of
                                (Some err, w4) \<Rightarrow> (Some err, w4)
                              | (None, w4) \<Rightarrow>
                                  (let w5 = replace_absolute_paths e install_root
                                              (str_path target_absolute) (str_path target_dir) w4
                                   in (None,
                                       success (Created package_list (str_path target_dir)) w5))))))))"

section \<open>Notions the properties are stated with\<close>

text \<open>
  The number of occurrences the engine counts in the file at a path (none where there
  is no regular file).
\<close>

definition matches_in :: "node \<Rightarrow> bytes \<Rightarrow> path \<Rightarrow> nat" where
  "matches_in t old_bytes p =
     (case read_file t p of None \<Rightarrow> 0 | Some content \<Rightarrow> count_bytes old_bytes content)"

text \<open>
  A path, read from a node, that is or lies inside a directory named \<^verbatim>\<open>__pycache__\<close>:
  some initial part of it, not empty, ends at such a directory.
\<close>

fun inside_pycache :: "node \<Rightarrow> path \<Rightarrow> bool" where
  "inside_pycache n [] = False"
| "inside_pycache (File b) (x # xs) = False"
| "inside_pycache (Dir es) (x # xs) =
     (case map_of es x of
        None \<Rightarrow> False
      | Some c \<Rightarrow> (x = ''__pycache__'' \<and> (case c of Dir d \<Rightarrow> True | File b \<Rightarrow> False))
                 \<or> inside_pycache c xs)"

text \<open>The same for a path from the root of the filesystem, below the directory \<open>root\<close>.\<close>

definition in_pycache_under :: "node \<Rightarrow> path \<Rightarrow> path \<Rightarrow> bool" where
  "in_pycache_under t root q =
     (prefix root q \<and>
      (case lookup t root of None \<Rightarrow> False | Some n \<Rightarrow> inside_pycache n (drop (length root) q)))"

text \<open>The external commands of a trace, in the order they were run.\<close>

fun commands :: "event list \<Rightarrow> string list list" where
  "commands [] = []"
| "commands (Ran cmd # evs) = cmd # commands evs"
| "commands (ev # evs) = commands evs"

text \<open>
  The invocation of the patching tool for a library: the rewrite-identity flag, the
  identity \<^verbatim>\<open>@executable_path/../\<close> followed by the library's path relative to the
  install root, and the library's path.
\<close>

definition patch_command :: "pypath \<Rightarrow> pypath \<Rightarrow> string list" where
  "patch_command install_root dylib_path =
     [''install_name_tool'', ''-id'',
      ''@executable_path/../'' @ str_path (RelPath (drop (length (parts install_root)) (parts dylib_path))),
      str_path dylib_path]"

section \<open>Example worlds\<close>

text \<open>
  A working directory \<^verbatim>\<open>/srv\<close> with two files; the pattern \<^verbatim>\<open>*\<close> expands to both, one of
  them twice.
\<close>

definition engine_env :: env where
  "engine_env =
     \<lparr>cwd = [''srv''],
      glob = (\<lambda>t recursive pat.
                if pat = RelPath [''*''] then [RelPath [''a''], RelPath [''b''], RelPath [''a'']]
                else []),
      tool = (\<lambda>cmd t. (True, t)),
      platform = ''linux''\<rparr>"

definition engine_world :: world where
  "engine_world =
     \<lparr>fs = Dir [(''srv'', Dir [(''a'', File ''#!/t/bin/python''), (''b'', File ''no path here'')])],
      trace = []\<rparr>"

text \<open>
  A build in the working directory \<^verbatim>\<open>/home\<close>, target \<^verbatim>\<open>out\<close>, Python 3.12, on macOS.
  \<open>installed_tree\<close> is what the interpreter installation leaves; the globs of
  \<open>build_env\<close> are the expansions of the builder's patterns on it. The worlds
  that follow are the states of this build after each step. In \<open>bare_env\<close> the
  installation creates nothing; in \<open>failing_env\<close> the patching tool fails, and
  the glob finds two libraries. In \<open>dylibs_env\<close> the glob finds three libraries,
  and in \<open>flaky_env\<close> the patching tool fails on the second of them only.
\<close>

definition installed_tree :: node where
  "installed_tree =
     Dir [(''home'', Dir [(''out'', Dir [(''cpython-3.12.1'', Dir
       [(''bin'', Dir [(''pip'', File ''#!/home/out/cpython-3.12.1/bin/python'')]),
        (''lib'', Dir [(''os.py'', File ''prefix = /home/out''),
                      (''site.cfg'', File ''home = /home/out''),
                      (''libpy.dylib'', File ''MachO''),
                      (''__pycache__'', Dir [(''os.pyc'', File ''cached'')])]),
        (''__pycache__'', Dir [(''__pycache__'', Dir [])])])])])]"

definition build_env :: env where
  "build_env =
     \<lparr>cwd = [''home''],
      glob = (\<lambda>t recursive pat.
        if pat = RelPath [''out'', ''cpython-3.12.*'']
        then (if is_dir t [''home'', ''out'', ''cpython-3.12.1'']
              then [RelPath [''out'', ''cpython-3.12.1'']] else [])
        else if pat = RelPath [''out'', ''cpython-3.12.1'', ''bin'', ''*'']
        then [RelPath [''out'', ''cpython-3.12.1'', ''bin'', ''pip'']]
        else if pat = RelPath [''out'', ''cpython-3.12.1'', ''lib'', ''**'', ''*.py'']
        then [RelPath [''out'', ''cpython-3.12.1'', ''lib'', ''os.py'']]
        else if pat = RelPath [''out'', ''cpython-3.12.1'', ''lib'', ''**'', ''*.dylib'']
        then [RelPath [''out'', ''cpython-3.12.1'', ''lib'', ''libpy.dylib'']]
        else if pat = RelPath [''out'', ''cpython-3.12.1'', ''**'', ''*'']
        then [RelPath [''out'', ''cpython-3.12.1'', ''bin''],
              RelPath [''out'', ''cpython-3.12.1'', ''bin'', ''pip''],
              RelPath [''out'', ''cpython-3.12.1'', ''lib''],
              RelPath [''out'', ''cpython-3.12.1'', ''lib'', ''os.py''],
              RelPath [''out'', ''cpython-3.12.1'', ''lib'', ''site.cfg''],
              RelPath [''out'', ''cpython-3.12.1'', ''lib'', ''libpy.dylib'']]
        else []),
      tool = (\<lambda>cmd t. if take 3 cmd = [''uv'', ''python'', ''install'']
                        then (True, installed_tree) else (True, t)),
      platform = ''darwin''\<rparr>"

definition empty_world :: world where
  "empty_world = \<lparr>fs = Dir [(''home'', Dir [])], trace = []\<rparr>"

definition bare_env :: env where
  "bare_env = build_env\<lparr>tool := (\<lambda>cmd t. (True, t))\<rparr>"

definition failing_env :: env where
  "failing_env =
     build_env\<lparr>tool := (\<lambda>cmd t. (take 1 cmd \<noteq> [''install_name_tool''], t)),
               glob := (\<lambda>t recursive pat.
                  [RelPath [''out'', ''cpython-3.12.1'', ''lib'', ''a.dylib''],
                   RelPath [''out'', ''cpython-3.12.1'', ''lib'', ''b.dylib'']])\<rparr>"

definition dylibs_env :: env where
  "dylibs_env =
     build_env\<lparr>glob := (\<lambda>t recursive pat.
                  [RelPath [''out'', ''cpython-3.12.1'', ''lib'', ''a.dylib''],
                   RelPath [''out'', ''cpython-3.12.1'', ''lib'', ''b.dylib''],
                   RelPath [''out'', ''cpython-3.12.1'', ''lib'', ''c.dylib'']])\<rparr>"

definition flaky_env :: env where
  "flaky_env =
     dylibs_env\<lparr>tool := (\<lambda>cmd t. (last cmd \<noteq> ''out/cpython-3.12.1/lib/b.dylib'', t))\<rparr>"

definition world_installed :: world where
  "world_installed =
     \<lparr>fs = installed_tree,
      trace = [Ran [''uv'', ''python'', ''install'', ''--managed-python'', ''--install-dir'',
                    ''/home/out'', ''3.12'']]\<rparr>"

definition world_packaged :: world where
  "world_packaged =
     \<lparr>fs = installed_tree,
      trace = trace world_installed @
        [Ran [''uv'', ''pip'', ''install'', ''cowsay'', ''--python'', ''out/cpython-3.12.1'',
              ''--break-system-packages'']]\<rparr>"

definition cleaned_tree :: node where
  "cleaned_tree =
     Dir [(''home'', Dir [(''out'', Dir [(''cpython-3.12.1'', Dir
       [(''bin'', Dir [(''pip'', File ''#!/home/out/cpython-3.12.1/bin/python'')]),
        (''lib'', Dir [(''os.py'', File ''prefix = /home/out''),
                      (''site.cfg'', File ''home = /home/out''),
                      (''libpy.dylib'', File ''MachO'')])])])])]"

definition world_patched :: world where
  "world_patched =
     \<lparr>fs = cleaned_tree,
      trace = trace world_packaged @
        [Info (Removed [''home'', ''out'', ''cpython-3.12.1'', ''__pycache__'']),
         Info (Removed [''home'', ''out'', ''cpython-3.12.1'', ''lib'', ''__pycache__'']),
         Info (FoundDylib ''out/cpython-3.12.1/lib/libpy.dylib''),
         Ran [''install_name_tool'', ''-id'', ''@executable_path/../lib/libpy.dylib'',
              ''out/cpython-3.12.1/lib/libpy.dylib'']]\<rparr>"

definition relocated_tree :: node where
  "relocated_tree =
     Dir [(''home'', Dir [(''out'', Dir [(''cpython-3.12.1'', Dir
       [(''bin'', Dir [(''pip'', File ''#!out/cpython-3.12.1/bin/python'')]),
        (''lib'', Dir [(''os.py'', File ''prefix = out''),
                      (''site.cfg'', File ''home = /home/out''),
                      (''libpy.dylib'', File ''MachO'')])])])])]"

definition world_replaced :: world where
  "world_replaced =
     \<lparr>fs = relocated_tree,
      trace = trace world_patched @
        [Info Blank,
         Info (Replacing [''out/cpython-3.12.1/bin/*'', ''out/cpython-3.12.1/lib/**/*.py'']
                 ''/home/out'' ''out''),
         Wrote [''home'', ''out'', ''cpython-3.12.1'', ''bin'', ''pip''],
         Wrote [''home'', ''out'', ''cpython-3.12.1'', ''lib'', ''os.py'']]\<rparr>"



section \<open>Byte sequences: the scan against cutting and joining\<close>

lemma count_scan_zero_iff: "old \<noteq> [] \<Longrightarrow> (count_scan old xs = 0) = (\<not> sublist old xs)"
proof (induction old xs rule: count_scan.induct)
  case (1 old)
  then show ?case by simp
next
  case (2 old x xs)
  show ?case
  proof (cases "prefix old (x # xs)")
    case True
    then show ?thesis using 2(3) by (auto simp: sublist_Cons_right)
  next
    case False
    then show ?thesis using 2 by (simp add: sublist_Cons_right)
  qed
qed

lemma count_bytes_zero_iff: "(count_bytes old xs = 0) = (\<not> sublist old xs)"
  by (simp add: count_bytes_def count_scan_zero_iff)

lemma split_bytes_not_Nil: "split_bytes old xs \<noteq> []"
  by (induction old xs rule: split_bytes.induct) auto

lemma hd_split_prefix: "prefix (hd (split_bytes old xs)) xs"
  by (induction old xs rule: split_bytes.induct) auto

lemma join_bytes_Cons: "ss \<noteq> [] \<Longrightarrow> join_bytes sep ((x # hd ss) # tl ss) = x # join_bytes sep ss"
  by (cases ss; cases "tl ss") auto

lemma join_bytes_Nil_Cons: "ss \<noteq> [] \<Longrightarrow> join_bytes sep ([] # ss) = sep @ join_bytes sep ss"
  by (cases ss) auto

lemma join_split_bytes: "join_bytes old (split_bytes old xs) = xs"
proof (induction old xs rule: split_bytes.induct)
  case (1 old)
  then show ?case by simp
next
  case (2 old x xs)
  show ?case
  proof (cases "old \<noteq> [] \<and> prefix old (x # xs)")
    case True
    then have "old @ drop (length old) (x # xs) = x # xs"
      by (metis append_take_drop_id prefix_def append_eq_conv_conj)
    then show ?thesis using True 2(1) by (simp add: join_bytes_Nil_Cons split_bytes_not_Nil)
  next
    case False
    then have "join_bytes old (split_bytes old (x # xs)) = x # join_bytes old (split_bytes old xs)"
      by (auto simp: join_bytes_Cons split_bytes_not_Nil)
    then show ?thesis using 2(2) False by auto
  qed
qed

lemma join_split_replace: "join_bytes new (split_bytes old xs) = replace_scan old new xs"
proof (induction old xs rule: split_bytes.induct)
  case (1 old)
  then show ?case by simp
next
  case (2 old x xs)
  show ?case
  proof (cases "old \<noteq> [] \<and> prefix old (x # xs)")
    case True
    then show ?thesis using 2(1) by (simp add: join_bytes_Nil_Cons split_bytes_not_Nil)
  next
    case False
    then have "join_bytes new (split_bytes old (x # xs)) = x # join_bytes new (split_bytes old xs)"
      by (auto simp: join_bytes_Cons split_bytes_not_Nil)
    then show ?thesis using 2(2) False by auto
  qed
qed

lemma length_split_bytes: "length (split_bytes old xs) = Suc (count_scan old xs)"
proof (induction old xs rule: split_bytes.induct)
  case (1 old)
  then show ?case by simp
next
  case (2 old x xs)
  then show ?case using split_bytes_not_Nil[of old xs]
    by (cases "split_bytes old xs") auto
qed

lemma split_bytes_free: "old \<noteq> [] \<Longrightarrow> s \<in> set (split_bytes old xs) \<Longrightarrow> \<not> sublist old s"
proof (induction old xs arbitrary: s rule: split_bytes.induct)
  case (1 old)
  then show ?case by simp
next
  case (2 old x xs)
  show ?case
  proof (cases "prefix old (x # xs)")
    case True
    then show ?thesis using "2.IH"(1)[of s] "2.prems" by auto
  next
    case False
    obtain h t where ht: "split_bytes old xs = h # t"
      using split_bytes_not_Nil[of old xs] by (cases "split_bytes old xs") auto
    have hp: "prefix h xs" using hd_split_prefix[of old xs] ht by simp
    from "2.prems" False ht have "s = x # h \<or> s \<in> set t" by auto
    then show ?thesis
    proof
      assume s: "s = x # h"
      have "\<not> prefix old (x # h)"
        using False hp by (meson Cons_prefix_Cons prefix_order.trans)
      moreover have "\<not> sublist old h" using "2.IH"(2)[of h] False "2.prems" ht by simp
      ultimately show ?thesis using s by (simp add: sublist_Cons_right)
    next
      assume "s \<in> set t"
      then show ?thesis using "2.IH"(2)[of s] False "2.prems" ht by simp
    qed
  qed
qed

section \<open>Reading and writing the tree\<close>

lemma map_of_modify:
  "map_of (map (\<lambda>(n, c). if n = x then (n, g c) else (n, c)) es) y =
     (if y = x then map_option g (map_of es x) else map_of es y)"
  by (induction es) auto

lemma lookup_append:
  "lookup t (p @ r) = (case lookup t p of None \<Rightarrow> None | Some n \<Rightarrow> lookup n r)"
proof (induction p arbitrary: t)
  case Nil
  then show ?case by simp
next
  case (Cons x xs)
  then show ?case by (cases t) (auto split: option.splits)
qed

lemma lookup_modify_at_under:
  "lookup (modify_at f p t) (p @ r) = (case lookup t p of None \<Rightarrow> None | Some n \<Rightarrow> lookup (f n) r)"
proof (induction p arbitrary: t)
  case Nil
  then show ?case by simp
next
  case (Cons x xs)
  then show ?case by (cases t) (auto simp: map_of_modify split: option.splits)
qed

lemma read_file_simps:
  "read_file n [] = (case n of File b \<Rightarrow> Some b | Dir es \<Rightarrow> None)"
  "read_file (File b) (x # xs) = None"
  "read_file (Dir es) (x # xs) = (case map_of es x of None \<Rightarrow> None | Some c \<Rightarrow> read_file c xs)"
  by (auto simp: read_file_def split: option.splits node.splits)

lemma is_dir_simps:
  "is_dir n [] = (case n of File b \<Rightarrow> False | Dir es \<Rightarrow> True)"
  "is_dir (File b) (x # xs) = False"
  "is_dir (Dir es) (x # xs) = (case map_of es x of None \<Rightarrow> False | Some c \<Rightarrow> is_dir c xs)"
  by (auto simp: is_dir_def split: option.splits node.splits)

lemma modify_at_frame:
  "\<not> prefix p q \<Longrightarrow>
     read_file (modify_at f p t) q = read_file t q \<and> is_dir (modify_at f p t) q = is_dir t q"
proof (induction p arbitrary: t q)
  case Nil
  then show ?case by simp
next
  case (Cons x xs)
  show ?case
  proof (cases t)
    case (File b)
    then show ?thesis by simp
  next
    case (Dir es)
    show ?thesis
    proof (cases q)
      case Nil
      then show ?thesis using Dir by (simp add: read_file_simps is_dir_simps)
    next
      case q: (Cons y ys)
      show ?thesis
      proof (cases "y = x")
        case True
        then have np: "\<not> prefix xs ys" using Cons.prems q by simp
        show ?thesis using Dir q True Cons.IH[OF np]
          by (simp add: read_file_simps is_dir_simps map_of_modify split: option.splits)
      next
        case False
        then show ?thesis using Dir q
          by (simp add: read_file_simps is_dir_simps map_of_modify)
      qed
    qed
  qed
qed

lemma read_file_modify_at_frame:
  "\<not> prefix p q \<Longrightarrow> read_file (modify_at f p t) q = read_file t q"
  by (simp add: modify_at_frame)

lemma is_dir_modify_at_frame:
  "\<not> prefix p q \<Longrightarrow> is_dir (modify_at f p t) q = is_dir t q"
  by (simp add: modify_at_frame)

lemma read_write_same:
  "read_file t p = Some c \<Longrightarrow> read_file (write_file t p b) p = Some b"
  using lookup_modify_at_under[where p = p and t = t and r = "[]"]
  by (auto simp: read_file_def write_file_def split: option.splits node.splits)

lemma read_write_other:
  assumes "q \<noteq> p"
  shows "read_file (write_file t p b) q = read_file t q"
proof (cases "prefix p q")
  case False
  then show ?thesis by (simp add: write_file_def read_file_modify_at_frame)
next
  case True
  then obtain r where q: "q = p @ r" and r: "r \<noteq> []"
    using assms by (auto simp: prefix_def)
  obtain x xs where rx: "r = x # xs" using r by (cases r) auto
  show ?thesis
    unfolding write_file_def read_file_def q lookup_modify_at_under
    by (simp add: lookup_append rx split: option.splits node.splits)
qed

section \<open>The engine's loop\<close>

lemma replace_scan_no_match: "count_scan old c = 0 \<Longrightarrow> replace_scan old new c = c"
  by (induction old c rule: count_scan.induct) (auto split: if_splits)

lemma replace_bytes_no_match: "count_bytes old c = 0 \<Longrightarrow> replace_bytes old new c = c"
  by (auto simp: count_bytes_def replace_bytes_def replace_scan_no_match split: if_splits)

lemma scan_file_fst: "fst (scan_file old new p w) = matches_in (fs w) old p"
  by (auto simp: scan_file_def matches_in_def Let_def split: option.splits)

lemma scan_file_other:
  "q \<noteq> p \<Longrightarrow> read_file (fs (snd (scan_file old new p w))) q = read_file (fs w) q"
  by (auto simp: scan_file_def Let_def read_write_other split: option.splits)

lemma scan_file_same:
  "read_file (fs (snd (scan_file old (Some nb) p w))) p =
     map_option (replace_bytes old nb) (read_file (fs w) p)"
  by (auto simp: scan_file_def Let_def read_write_same replace_bytes_no_match split: option.splits)

lemma scan_file_trace:
  "trace (snd (scan_file old new p w)) =
     trace w @ (if new \<noteq> None \<and> matches_in (fs w) old p \<noteq> 0 then [Wrote p] else [])"
  by (auto simp: scan_file_def matches_in_def Let_def split: option.splits)

lemma scan_file_None: "snd (scan_file old None p w) = w"
  by (auto simp: scan_file_def Let_def split: option.splits)

lemma matches_in_scan_file:
  "q \<noteq> p \<Longrightarrow> matches_in (fs (snd (scan_file old new p w))) old q = matches_in (fs w) old q"
  by (simp add: matches_in_def scan_file_other)

lemma scan_files_other:
  "q \<notin> set ps \<Longrightarrow> read_file (fs (snd (scan_files old new ps n w))) q = read_file (fs w) q"
proof (induction ps arbitrary: n w)
  case Nil
  then show ?case by simp
next
  case (Cons p ps)
  then show ?case by (simp add: split_beta scan_file_other)
qed

lemma scan_files_same:
  "distinct ps \<Longrightarrow> p \<in> set ps \<Longrightarrow>
     read_file (fs (snd (scan_files old (Some nb) ps n w))) p =
       map_option (replace_bytes old nb) (read_file (fs w) p)"
proof (induction ps arbitrary: n w)
  case Nil
  then show ?case by simp
next
  case (Cons a ps)
  show ?case
  proof (cases "p = a")
    case True
    then have "p \<notin> set ps" using Cons.prems by simp
    then show ?thesis using True by (simp add: split_beta scan_files_other scan_file_same)
  next
    case False
    then have "p \<in> set ps" "distinct ps" using Cons.prems by auto
    then show ?thesis using False Cons.IH by (simp add: split_beta scan_file_other)
  qed
qed

lemma scan_files_fst:
  "distinct ps \<Longrightarrow>
     fst (scan_files old new ps n w) = n + sum_list (map (matches_in (fs w) old) ps)"
proof (induction ps arbitrary: n w)
  case Nil
  then show ?case by simp
next
  case (Cons a ps)
  have ne: "\<And>q. q \<in> set ps \<Longrightarrow> q \<noteq> a" using Cons.prems by auto
  have meq: "map (matches_in (fs (snd (scan_file old new a w))) old) ps = map (matches_in (fs w) old) ps"
    by (intro map_cong) (simp_all add: matches_in_scan_file ne)
  have "distinct ps" using Cons.prems by simp
  then show ?case using Cons.IH by (simp add: split_beta scan_file_fst meq)
qed

lemma scan_files_trace:
  "distinct ps \<Longrightarrow>
     trace (snd (scan_files old new ps n w)) =
       trace w @ map Wrote (filter (\<lambda>p. new \<noteq> None \<and> matches_in (fs w) old p \<noteq> 0) ps)"
proof (induction ps arbitrary: n w)
  case Nil
  then show ?case by simp
next
  case (Cons a ps)
  have ne: "\<And>q. q \<in> set ps \<Longrightarrow> q \<noteq> a" using Cons.prems by auto
  have "filter (\<lambda>p. new \<noteq> None \<and> matches_in (fs (snd (scan_file old new a w))) old p \<noteq> 0) ps =
        filter (\<lambda>p. new \<noteq> None \<and> matches_in (fs w) old p \<noteq> 0) ps"
    by (intro filter_cong) (simp_all add: matches_in_scan_file ne)
  note feq = this
  have d: "distinct ps" using Cons.prems by simp
  have "trace (snd (scan_files old new (a # ps) n w)) =
        trace (snd (scan_file old new a w)) @
        map Wrote (filter (\<lambda>p. new \<noteq> None \<and> matches_in (fs (snd (scan_file old new a w))) old p \<noteq> 0) ps)"
    by (simp only: scan_files.simps split_beta Let_def Cons.IH[OF d])
  also have "\<dots> = trace w @ map Wrote (filter (\<lambda>p. new \<noteq> None \<and> matches_in (fs w) old p \<noteq> 0) (a # ps))"
    unfolding feq scan_file_trace by simp
  finally show ?case .
qed

lemma scan_files_None: "snd (scan_files old None ps n w) = w"
  by (induction ps arbitrary: n w) (simp_all add: split_beta scan_file_None)

lemma scan_files_no_match:
  "\<forall>p\<in>set ps. matches_in (fs w) old p = 0 \<Longrightarrow> scan_files old new ps n w = (n, w)"
proof (induction ps arbitrary: n w)
  case Nil
  then show ?case by simp
next
  case (Cons a ps)
  have "scan_file old new a w = (0, w)"
    using Cons.prems by (auto simp: scan_file_def matches_in_def Let_def split: option.splits)
  then show ?case using Cons by simp
qed

lemma matches_in_zero_iff:
  "(matches_in t old p = 0) = (\<forall>content. read_file t p = Some content \<longrightarrow> \<not> sublist old content)"
  by (cases "read_file t p") (simp_all add: matches_in_def count_bytes_zero_iff)

lemma distinct_file_set: "distinct (file_set e t pats)"
  by (simp add: file_set_def)


section \<open>The walk\<close>

lemma in_dirnames_iff: "(name \<in> set (dirnames es)) = (\<exists>d. map_of es name = Some (Dir d))"
proof -
  have "map_of es name = Some (Dir d) \<Longrightarrow> name \<in> fst ` set es" for d
    by (metis map_of_SomeD fst_conv image_eqI)
  then show ?thesis
    by (auto simp: dirnames_def split: option.splits node.splits)
qed

lemma map_of_walked:
  "map_of (map (\<lambda>(name, r). (name, fst r))
            (map (\<lambda>(name, c). (name, walk (dp @ [name]) c))
               (filter (\<lambda>(name, c). \<not> (found \<and> name = pc)) es))) x =
     (if found \<and> x = pc then None else map_option (\<lambda>c. fst (walk (dp @ [x]) c)) (map_of es x))"
  by (induction es) auto

lemma walk_File: "fst (walk dp n) = File b \<longleftrightarrow> n = File b"
  by (cases n) (auto simp: Let_def)

lemma walk_Dir: "(\<exists>d. fst (walk dp n) = Dir d) \<longleftrightarrow> (\<exists>d. n = Dir d)"
  by (cases n) (auto simp: Let_def)

lemma lookup_walk:
  "lookup (fst (walk dp n)) r =
     (if inside_pycache n r then None else map_option (\<lambda>m. fst (walk (dp @ r) m)) (lookup n r))"
proof (induction r arbitrary: n dp)
  case Nil
  then show ?case by simp
next
  case (Cons x xs)
  show ?case
  proof (cases n)
    case (File b)
    then show ?thesis by simp
  next
    case (Dir es)
    define found where "found = (''__pycache__'' \<in> set (dirnames es))"
    define es' where "es' = map (\<lambda>(name, r). (name, fst r))
            (map (\<lambda>(name, c). (name, walk (dp @ [name]) c))
               (filter (\<lambda>(name, c). \<not> (found \<and> name = ''__pycache__'')) es))"
    have w: "fst (walk dp n) = Dir es'"
      unfolding Dir es'_def found_def by (simp add: Let_def)
    have mo: "map_of es' y =
        (if found \<and> y = ''__pycache__'' then None
         else map_option (\<lambda>c. fst (walk (dp @ [y]) c)) (map_of es y))" for y
      unfolding es'_def by (rule map_of_walked)
    show ?thesis
    proof (cases "map_of es x")
      case None
      then have m1: "map_of es' x = None" by (simp add: mo)
      have "\<not> inside_pycache n (x # xs)" "lookup n (x # xs) = None"
        using Dir None by simp_all
      then show ?thesis unfolding w by (simp add: m1)
    next
      case (Some c)
      show ?thesis
      proof (cases "found \<and> x = ''__pycache__''")
        case True
        then obtain d where "c = Dir d" using Some by (auto simp: found_def in_dirnames_iff)
        then have i1: "inside_pycache n (x # xs)" using Dir Some True by simp
        have m1: "map_of es' x = None" using True by (simp add: mo)
        show ?thesis unfolding w using i1 by (simp add: m1)
      next
        case False
        then have nd: "\<not> (x = ''__pycache__'' \<and> (case c of Dir d \<Rightarrow> True | File b \<Rightarrow> False))"
          using Some by (auto simp: found_def in_dirnames_iff split: node.splits)
        have m1: "map_of es' x = Some (fst (walk (dp @ [x]) c))"
          using False Some by (simp add: mo)
        have l1: "lookup (fst (walk dp n)) (x # xs) = lookup (fst (walk (dp @ [x]) c)) xs"
          unfolding w by (simp add: m1)
        have i1: "inside_pycache n (x # xs) = inside_pycache c xs"
          using Dir Some nd by auto
        have l2: "lookup n (x # xs) = lookup c xs"
          using Dir Some by simp
        show ?thesis unfolding l1 i1 l2 using Cons.IH[of "dp @ [x]" c] by simp
      qed
    qed
  qed
qed

lemma dir_named_pycache_inside:
  "lookup n r = Some (Dir d) \<Longrightarrow> r \<noteq> [] \<Longrightarrow> last r = ''__pycache__'' \<Longrightarrow> inside_pycache n r"
proof (induction r arbitrary: n)
  case Nil
  then show ?case by simp
next
  case (Cons x xs)
  then show ?case
    by (cases n; cases xs) (auto split: option.splits)
qed

lemma walk_preserves:
  assumes "\<not> inside_pycache n r"
  shows "read_file (fst (walk dp n)) r = read_file n r \<and> is_dir (fst (walk dp n)) r = is_dir n r"
proof (cases "lookup n r")
  case None
  then show ?thesis using assms by (simp add: read_file_def is_dir_def lookup_walk)
next
  case (Some m)
  then show ?thesis using assms
    by (cases m) (simp_all add: read_file_def is_dir_def lookup_walk Let_def)
qed

lemma walk_removes: "inside_pycache n r \<Longrightarrow> lookup (fst (walk dp n)) r = None"
  by (simp add: lookup_walk)

lemma walk_no_pycache:
  assumes "r \<noteq> []" and "last r = ''__pycache__''"
  shows "\<not> is_dir (fst (walk dp n)) r"
proof
  assume "is_dir (fst (walk dp n)) r"
  then obtain d where d: "lookup (fst (walk dp n)) r = Some (Dir d)"
    by (auto simp: is_dir_def split: option.splits node.splits)
  then have ni: "\<not> inside_pycache n r"
    by (auto simp: lookup_walk split: if_splits)
  with d obtain m where m: "lookup n r = Some m" and "fst (walk (dp @ r) m) = Dir d"
    by (auto simp: lookup_walk)
  then obtain d' where "m = Dir d'" using walk_Dir[of "dp @ r" m] by auto
  then have "inside_pycache n r"
    using m assms dir_named_pycache_inside by blast
  with ni show False by simp
qed

section \<open>The steps of the builder\<close>

lemma search_replace_other:
  "q \<notin> set (file_set e (fs w) pats) \<Longrightarrow>
     read_file (fs (snd (search_replace_in_files e pats old new w))) q = read_file (fs w) q"
  by (simp add: search_replace_in_files_def scan_files_other)

lemma search_replace_trace:
  "trace (snd (search_replace_in_files e pats old new w)) =
     trace w @ map Wrote (filter (\<lambda>p. new \<noteq> None \<and> matches_in (fs w) old p \<noteq> 0)
                            (file_set e (fs w) pats))"
  by (simp add: search_replace_in_files_def scan_files_trace[OF distinct_file_set])

lemma search_replace_scan_only:
  "search_replace_in_files e pats old None w =
     (sum_list (map (matches_in (fs w) old) (file_set e (fs w) pats)), w)"
  using scan_files_fst[OF distinct_file_set, of old None e "fs w" pats 0 w]
        scan_files_None[of old "file_set e (fs w) pats" 0 w]
  by (simp add: search_replace_in_files_def prod_eq_iff)

lemma info_simps: "fs (info m w) = fs w" "trace (info m w) = trace w @ [Info m]"
  by (simp_all add: info_def)

lemma warn_simps: "fs (warn m w) = fs w" "trace (warn m w) = trace w @ [Warn m]"
  by (simp_all add: warn_def)

lemma success_simps: "fs (success m w) = fs w" "trace (success m w) = trace w @ [Success m]"
  by (simp_all add: success_def)

text \<open>The replace step, by its two passes.\<close>

lemma replace_absolute_paths_result:
  assumes "w3 = snd (search_replace_in_files e
                  [child (child python_root ''bin'') ''*'',
                   child (child (child python_root ''lib'') ''**'') ''*.py'']
                  old (Some new)
                  (info (Replacing (map str_path
                     [child (child python_root ''bin'') ''*'',
                      child (child (child python_root ''lib'') ''**'') ''*.py'']) old new)
                   (info Blank w)))"
      and "m = sum_list (map (matches_in (fs w3) old)
                 (file_set e (fs w3) [child (child python_root ''**'') ''*'']))"
  shows "fs (replace_absolute_paths e python_root old new w) = fs w3"
    and "trace (replace_absolute_paths e python_root old new w) =
           trace w3 @ [Info Blank, Info SanityChecking,
                       if m \<noteq> 0 then Warn (MatchesFound m old) else Info NoPathsFound]"
  unfolding replace_absolute_paths_def assms
  by (simp_all add: Let_def split_beta search_replace_scan_only info_simps warn_simps)

lemma run_trace: "trace (snd (run e cmd w)) = trace w @ [Ran cmd]"
  by (simp add: run_def split_beta)

lemma update_dylibs_Cons:
  "update_dylibs e root (d # ds) w =
     (case relative_to d root of
        Inl err \<Rightarrow> (Some err, info (FoundDylib (str_path d)) w)
      | Inr rel \<Rightarrow>
          (let r = run e [''install_name_tool'', ''-id'',
                          ''@executable_path/../'' @ str_path rel, str_path d]
                     (info (FoundDylib (str_path d)) w)
           in if fst r = None then update_dylibs e root ds (snd r) else r))"
  by (simp add: Let_def split: sum.splits prod.splits option.splits)

lemma update_dylibs_prefix: "prefix (trace w) (trace (snd (update_dylibs e root ds w)))"
proof (induction ds arbitrary: w)
  case Nil
  then show ?case by simp
next
  case (Cons d ds)
  show ?case
  proof (cases "relative_to d root")
    case (Inl err)
    then show ?thesis by (simp add: info_simps)
  next
    case (Inr rel)
    define r where "r = run e [''install_name_tool'', ''-id'',
        ''@executable_path/../'' @ str_path rel, str_path d] (info (FoundDylib (str_path d)) w)"
    have p1: "prefix (trace w) (trace (snd r))"
      by (simp add: r_def run_trace info_simps)
    have "snd (update_dylibs e root (d # ds) w) =
        (if fst r = None then snd (update_dylibs e root ds (snd r)) else snd r)"
      unfolding update_dylibs_Cons Inr r_def by (simp add: Let_def)
    then show ?thesis using p1 Cons.IH[of "snd r"]
      by (auto intro: prefix_order.trans)
  qed
qed

lemma clean_pycache_dirs_prefix: "prefix (trace w) (trace (clean_pycache_dirs e p w))"
  by (simp add: clean_pycache_dirs_def split: option.splits)

lemma replace_absolute_paths_prefix:
  "prefix (trace w) (trace (replace_absolute_paths e root old new w))"
  unfolding replace_absolute_paths_result(2)[OF refl refl]
  by (simp add: search_replace_trace info_simps)

lemma commands_append: "commands (xs @ ys) = commands xs @ commands ys"
  by (induction xs rule: commands.induct) auto

lemma relative_to_Inr:
  "relative_to d root = Inr rel \<Longrightarrow> rel = RelPath (drop (length (parts root)) (parts d))"
  by (cases d; cases root) (auto split: if_splits)

lemma update_dylibs_commands:
  "\<exists>k\<le>length ds.
     commands (trace (snd (update_dylibs e root ds w))) =
       commands (trace w) @ map (patch_command root) (take k ds)
     \<and> (fst (update_dylibs e root ds w) = None \<longrightarrow> k = length ds)"
proof (induction ds arbitrary: w)
  case Nil
  then show ?case by simp
next
  case (Cons d ds)
  show ?case
  proof (cases "relative_to d root")
    case (Inl err)
    then have A: "commands (trace (snd (update_dylibs e root (d # ds) w))) =
        commands (trace w) @ map (patch_command root) (take 0 (d # ds))"
      by (simp add: info_simps commands_append)
    have B: "fst (update_dylibs e root (d # ds) w) = None \<longrightarrow> 0 = length (d # ds)"
      using Inl by simp
    have C: "0 \<le> length (d # ds)"
      by simp
    show ?thesis
      by (rule exI[of _ 0]) (rule conjI[OF C conjI[OF A B]])
  next
    case (Inr rel)
    define r where "r = run e [''install_name_tool'', ''-id'',
        ''@executable_path/../'' @ str_path rel, str_path d] (info (FoundDylib (str_path d)) w)"
    have c1: "commands (trace (snd r)) = commands (trace w) @ [patch_command root d]"
      using relative_to_Inr[OF Inr]
      by (simp add: r_def run_trace info_simps commands_append patch_command_def)
    have u: "update_dylibs e root (d # ds) w =
        (if fst r = None then update_dylibs e root ds (snd r) else r)"
      unfolding update_dylibs_Cons Inr r_def by (simp add: Let_def)
    show ?thesis
    proof (cases "fst r = None")
      case True
      have eq: "update_dylibs e root (d # ds) w = update_dylibs e root ds (snd r)"
        unfolding u using True by simp
      from Cons.IH[of "snd r"] obtain k where k: "k \<le> length ds"
        "commands (trace (snd (update_dylibs e root ds (snd r)))) =
           commands (trace (snd r)) @ map (patch_command root) (take k ds)"
        "fst (update_dylibs e root ds (snd r)) = None \<longrightarrow> k = length ds"
        by (elim exE conjE) (rule that)
      have A: "commands (trace (snd (update_dylibs e root (d # ds) w))) =
          commands (trace w) @ map (patch_command root) (take (Suc k) (d # ds))"
        unfolding eq k(2) c1 by simp
      have B: "fst (update_dylibs e root (d # ds) w) = None \<longrightarrow> Suc k = length (d # ds)"
        unfolding eq using k(3) by simp
      have C: "Suc k \<le> length (d # ds)"
        using k(1) by simp
      show ?thesis
        by (rule exI[of _ "Suc k"]) (rule conjI[OF C conjI[OF A B]])
    next
      case False
      have eq: "update_dylibs e root (d # ds) w = r"
        unfolding u using False by auto
      have A: "commands (trace (snd (update_dylibs e root (d # ds) w))) =
          commands (trace w) @ map (patch_command root) (take (Suc 0) (d # ds))"
        unfolding eq c1 by simp
      have B: "fst (update_dylibs e root (d # ds) w) = None \<longrightarrow> Suc 0 = length (d # ds)"
        unfolding eq using False by auto
      have C: "Suc 0 \<le> length (d # ds)"
        by simp
      show ?thesis
        by (rule exI[of _ "Suc 0"]) (rule conjI[OF C conjI[OF A B]])
    qed
  qed
qed

lemma result_case_snd:
  "snd (case r of (None, w4) \<Rightarrow> f w4 | (Some err, w4) \<Rightarrow> (Some err, w4)) =
     (if fst r = None then snd (f (snd r)) else snd r)"
  by (cases r; cases "fst r") auto

lemma result_case_fst:
  "fst (case r of (None, w4) \<Rightarrow> f w4 | (Some err, w4) \<Rightarrow> (Some err, w4)) =
     (if fst r = None then fst (f (snd r)) else fst r)"
  by (cases r; cases "fst r") auto

lemma update_macos_dylib_ids_prefix:
  "prefix (trace w) (trace (snd (update_macos_dylib_ids e root w)))"
  by (simp add: update_macos_dylib_ids_def Let_def update_dylibs_prefix)

text \<open>The steps of the build after the package installation only add to the trace.\<close>

lemma relocation_prefix:
  "prefix (trace w2)
     (trace (snd (case (if darwin then update_macos_dylib_ids e root (clean_pycache_dirs e ta w2)
                        else (None, clean_pycache_dirs e ta w2)) of
                    (None, w4) \<Rightarrow> (None, success m (replace_absolute_paths e root old new w4))
                  | (Some err, w4) \<Rightarrow> (Some err, w4))))"
proof -
  define r where "r = (if darwin then update_macos_dylib_ids e root (clean_pycache_dirs e ta w2)
                        else (None, clean_pycache_dirs e ta w2))"
  have p1: "prefix (trace w2) (trace (snd r))"
    using clean_pycache_dirs_prefix[of w2 e ta]
      update_macos_dylib_ids_prefix[of "clean_pycache_dirs e ta w2" e root]
    by (auto simp: r_def intro: prefix_order.trans)
  have p2: "prefix (trace (snd r)) (trace (success m (replace_absolute_paths e root old new (snd r))))"
    using replace_absolute_paths_prefix[of "snd r" e root old new]
    by (auto simp: success_simps prefix_def)
  show ?thesis
    unfolding r_def[symmetric] result_case_snd
    using p1 p2 by (auto intro: prefix_order.trans)
qed

text \<open>
  The loop of the patcher, entry by entry: an entry under the root costs one
  invocation, and the loop goes on to the next entry exactly when that invocation
  exits with zero; the loop over a list is the loop over its first part, then, if
  that ended without error, the loop over the rest.
\<close>

lemma run_fst:
  "fst (run e cmd w) = (if fst (tool e cmd (fs w)) then None else Some (CalledProcessError cmd))"
  by (simp add: run_def split_beta)

lemma relative_to_Inl: "relative_to d root = Inl err \<Longrightarrow> err = ValueError"
  by (cases d; cases root) (auto split: if_splits)

lemma update_dylibs_step:
  assumes "relative_to d root = Inr rel"
  shows "update_dylibs e root (d # ds) w =
     (if fst (tool e (patch_command root d) (fs w))
      then update_dylibs e root ds
             (snd (run e (patch_command root d) (info (FoundDylib (str_path d)) w)))
      else (Some (CalledProcessError (patch_command root d)),
            snd (run e (patch_command root d) (info (FoundDylib (str_path d)) w))))"
proof -
  define cmd where "cmd = [''install_name_tool'', ''-id'',
      ''@executable_path/../'' @ str_path rel, str_path d]"
  have c: "cmd = patch_command root d"
    using relative_to_Inr[OF assms] by (simp add: cmd_def patch_command_def)
  have "update_dylibs e root (d # ds) w =
      (let r = run e cmd (info (FoundDylib (str_path d)) w)
       in if fst r = None then update_dylibs e root ds (snd r) else r)"
    unfolding update_dylibs_Cons assms cmd_def by simp
  then show ?thesis
    unfolding c by (simp add: Let_def run_fst info_simps prod_eq_iff)
qed

lemma update_dylibs_append:
  "update_dylibs e root (pre @ rest) w =
     (if fst (update_dylibs e root pre w) = None
      then update_dylibs e root rest (snd (update_dylibs e root pre w))
      else update_dylibs e root pre w)"
proof (induction pre arbitrary: w)
  case Nil
  then show ?case by simp
next
  case (Cons d pre)
  show ?case
  proof (cases "relative_to d root")
    case (Inl err)
    then show ?thesis by simp
  next
    case (Inr rel)
    show ?thesis
      unfolding append_Cons update_dylibs_step[OF Inr]
      using Cons.IH by simp
  qed
qed

lemma update_dylibs_stops:
  assumes "update_dylibs e root pre w = (None, w1)"
      and "relative_to d root = Inr rel"
      and "\<not> fst (tool e (patch_command root d) (fs w1))"
  shows "fst (update_dylibs e root (pre @ d # post) w)
           = Some (CalledProcessError (patch_command root d))"
    and "commands (trace (snd (update_dylibs e root (pre @ d # post) w)))
           = commands (trace w) @ map (patch_command root) (pre @ [d])"
proof -
  have eq: "update_dylibs e root (pre @ d # post) w =
      (Some (CalledProcessError (patch_command root d)),
       snd (run e (patch_command root d) (info (FoundDylib (str_path d)) w1)))"
    unfolding update_dylibs_append[of e root pre "d # post" w] update_dylibs_step[OF assms(2)]
    using assms(1,3) by simp
  from update_dylibs_commands[of pre e root w] obtain k where
    "commands (trace (snd (update_dylibs e root pre w))) =
       commands (trace w) @ map (patch_command root) (take k pre)"
    "fst (update_dylibs e root pre w) = None \<longrightarrow> k = length pre"
    by (elim exE conjE) (rule that)
  then have c: "commands (trace w1) = commands (trace w) @ map (patch_command root) pre"
    using assms(1) by simp
  show "fst (update_dylibs e root (pre @ d # post) w)
           = Some (CalledProcessError (patch_command root d))"
    unfolding eq by simp
  show "commands (trace (snd (update_dylibs e root (pre @ d # post) w)))
           = commands (trace w) @ map (patch_command root) (pre @ [d])"
    unfolding eq by (simp add: run_trace info_simps commands_append c)
qed

lemma update_dylibs_error:
  "fst (update_dylibs e root ds w) = Some err \<Longrightarrow>
     \<exists>pre d post w1. ds = pre @ d # post
       \<and> update_dylibs e root pre w = (None, w1)
       \<and> (relative_to d root = Inl err
          \<or> ((\<exists>rel. relative_to d root = Inr rel)
             \<and> \<not> fst (tool e (patch_command root d) (fs w1))
             \<and> err = CalledProcessError (patch_command root d)))"
proof (induction ds arbitrary: w)
  case Nil
  then show ?case by simp
next
  case (Cons d ds)
  show ?case
  proof (cases "relative_to d root")
    case (Inl err')
    then have "err' = err" using Cons.prems by simp
    then have "d # ds = [] @ d # ds \<and> update_dylibs e root [] w = (None, w)
       \<and> (relative_to d root = Inl err
          \<or> ((\<exists>rel. relative_to d root = Inr rel)
             \<and> \<not> fst (tool e (patch_command root d) (fs w))
             \<and> err = CalledProcessError (patch_command root d)))"
      using Inl by simp
    then show ?thesis by (intro exI)
  next
    case (Inr rel)
    note st = update_dylibs_step[OF Inr, of e _ w]
    show ?thesis
    proof (cases "fst (tool e (patch_command root d) (fs w))")
      case True
      define w' where "w' = snd (run e (patch_command root d) (info (FoundDylib (str_path d)) w))"
      have eq: "update_dylibs e root (d # xs) w = update_dylibs e root xs w'" for xs
        unfolding st w'_def using True by simp
      have "fst (update_dylibs e root ds w') = Some err"
        using Cons.prems unfolding eq .
      from Cons.IH[OF this] obtain pre d' post w1 where p: "ds = pre @ d' # post"
        "update_dylibs e root pre w' = (None, w1)"
        "relative_to d' root = Inl err
          \<or> ((\<exists>rel. relative_to d' root = Inr rel)
             \<and> \<not> fst (tool e (patch_command root d') (fs w1))
             \<and> err = CalledProcessError (patch_command root d'))"
        by (elim exE conjE) (rule that)
      have "d # ds = (d # pre) @ d' # post \<and> update_dylibs e root (d # pre) w = (None, w1)
       \<and> (relative_to d' root = Inl err
          \<or> ((\<exists>rel. relative_to d' root = Inr rel)
             \<and> \<not> fst (tool e (patch_command root d') (fs w1))
             \<and> err = CalledProcessError (patch_command root d')))"
        using p unfolding eq by simp
      then show ?thesis by (intro exI)
    next
      case False
      have "update_dylibs e root (d # ds) w =
          (Some (CalledProcessError (patch_command root d)),
           snd (run e (patch_command root d) (info (FoundDylib (str_path d)) w)))"
        unfolding st using False by simp
      then have "err = CalledProcessError (patch_command root d)"
        using Cons.prems by simp
      then have "d # ds = [] @ d # ds \<and> update_dylibs e root [] w = (None, w)
       \<and> (relative_to d root = Inl err
          \<or> ((\<exists>rel. relative_to d root = Inr rel)
             \<and> \<not> fst (tool e (patch_command root d) (fs w))
             \<and> err = CalledProcessError (patch_command root d)))"
        using False Inr by simp
      then show ?thesis by (intro exI)
    qed
  qed
qed

lemma update_dylibs_not_under_root:
  assumes "update_dylibs e root pre w = (None, w1)"
      and "relative_to d root = Inl err"
  shows "fst (update_dylibs e root (pre @ d # post) w) = Some err"
    and "commands (trace (snd (update_dylibs e root (pre @ d # post) w)))
           = commands (trace w) @ map (patch_command root) pre"
proof -
  have eq: "update_dylibs e root (pre @ d # post) w = (Some err, info (FoundDylib (str_path d)) w1)"
    unfolding update_dylibs_append[of e root pre "d # post" w] update_dylibs_Cons
    using assms by simp
  from update_dylibs_commands[of pre e root w] obtain k where
    "commands (trace (snd (update_dylibs e root pre w))) =
       commands (trace w) @ map (patch_command root) (take k pre)"
    "fst (update_dylibs e root pre w) = None \<longrightarrow> k = length pre"
    by (elim exE conjE) (rule that)
  then have c: "commands (trace w1) = commands (trace w) @ map (patch_command root) pre"
    using assms(1) by simp
  show "fst (update_dylibs e root (pre @ d # post) w) = Some err"
    unfolding eq by simp
  show "commands (trace (snd (update_dylibs e root (pre @ d # post) w)))
           = commands (trace w) @ map (patch_command root) pre"
    unfolding eq by (simp add: info_simps commands_append c)
qed

section \<open>The example build, step by step\<close>

lemma example_target_absent:
  "\<not> (path_exists build_env (fs empty_world) (RelPath [''out'']) \<and> \<not> False)"
  by code_simp

lemma example_install:
  "run build_env [''uv'', ''python'', ''install'', ''--managed-python'', ''--install-dir'',
                  str_path (resolve build_env (RelPath [''out''])), ''3.12''] empty_world
     = (None, world_installed)"
  by code_simp

lemma example_install_root:
  "glob build_env (fs world_installed) False (child (RelPath [''out'']) (''cpython-'' @ ''3.12'' @ ''.*''))
     = RelPath [''out'', ''cpython-3.12.1''] # []"
  by code_simp

lemma example_pip_exists:
  "path_exists build_env (fs world_installed)
     (child (child (RelPath [''out'', ''cpython-3.12.1'']) ''bin'') ''pip'')"
  by code_simp

lemma example_packages:
  "run build_env ([''uv'', ''pip'', ''install''] @ [''cowsay''] @
                  [''--python'', str_path (RelPath [''out'', ''cpython-3.12.1'']),
                   ''--break-system-packages'']) world_installed
     = (None, world_packaged)"
  by code_simp

lemma example_patched:
  "(if platform build_env = ''darwin''
    then update_macos_dylib_ids build_env (RelPath [''out'', ''cpython-3.12.1''])
           (clean_pycache_dirs build_env (resolve build_env (RelPath [''out''])) world_packaged)
    else (None, clean_pycache_dirs build_env (resolve build_env (RelPath [''out''])) world_packaged))
     = (None, world_patched)"
  by code_simp

lemma example_replaced:
  "world_replaced = snd (search_replace_in_files build_env
      [child (child (RelPath [''out'', ''cpython-3.12.1'']) ''bin'') ''*'',
       child (child (child (RelPath [''out'', ''cpython-3.12.1'']) ''lib'') ''**'') ''*.py'']
      (str_path (resolve build_env (RelPath [''out'']))) (Some (str_path (RelPath [''out''])))
      (info (Replacing (map str_path
         [child (child (RelPath [''out'', ''cpython-3.12.1'']) ''bin'') ''*'',
          child (child (child (RelPath [''out'', ''cpython-3.12.1'']) ''lib'') ''**'') ''*.py''])
         (str_path (resolve build_env (RelPath [''out'']))) (str_path (RelPath [''out''])))
       (info Blank world_patched)))"
  by code_simp

lemma example_leftover:
  "1 = fst (search_replace_in_files build_env
      [child (child (RelPath [''out'', ''cpython-3.12.1'']) ''**'') ''*'']
      (str_path (resolve build_env (RelPath [''out'']))) None
      (info SanityChecking (info Blank world_replaced)))"
  by code_simp



text \<open>
  The patcher on three libraries: the steps of the loop when the tool fails on the
  second library, and when it fails on none.
\<close>

lemma flaky_glob:
  "glob flaky_env (fs \<lparr>fs = installed_tree, trace = []\<rparr>) True
      (child (child (child (RelPath [''out'', ''cpython-3.12.1'']) ''lib'') ''**'') ''*.dylib'')
    = [RelPath [''out'', ''cpython-3.12.1'', ''lib'', ''a.dylib'']]
      @ RelPath [''out'', ''cpython-3.12.1'', ''lib'', ''b.dylib'']
      # [RelPath [''out'', ''cpython-3.12.1'', ''lib'', ''c.dylib'']]"
  by (simp add: flaky_env_def dylibs_env_def)

lemma flaky_first:
  "update_dylibs flaky_env (RelPath [''out'', ''cpython-3.12.1''])
      [RelPath [''out'', ''cpython-3.12.1'', ''lib'', ''a.dylib'']]
      \<lparr>fs = installed_tree, trace = []\<rparr>
    = (None, \<lparr>fs = installed_tree,
               trace = [Info (FoundDylib ''out/cpython-3.12.1/lib/a.dylib''),
                        Ran [''install_name_tool'', ''-id'',
                             ''@executable_path/../lib/a.dylib'',
                             ''out/cpython-3.12.1/lib/a.dylib'']]\<rparr>)"
  by code_simp

lemma flaky_second_rel:
  "relative_to (RelPath [''out'', ''cpython-3.12.1'', ''lib'', ''b.dylib''])
      (RelPath [''out'', ''cpython-3.12.1'']) = Inr (RelPath [''lib'', ''b.dylib''])"
  by code_simp

lemma flaky_second_fails:
  "\<not> fst (tool flaky_env
      (patch_command (RelPath [''out'', ''cpython-3.12.1''])
         (RelPath [''out'', ''cpython-3.12.1'', ''lib'', ''b.dylib'']))
      (fs \<lparr>fs = installed_tree,
               trace = [Info (FoundDylib ''out/cpython-3.12.1/lib/a.dylib''),
                        Ran [''install_name_tool'', ''-id'',
                             ''@executable_path/../lib/a.dylib'',
                             ''out/cpython-3.12.1/lib/a.dylib'']]\<rparr>))"
  by code_simp

lemma dylibs_no_error:
  "fst (update_macos_dylib_ids dylibs_env (RelPath [''out'', ''cpython-3.12.1''])
      \<lparr>fs = installed_tree, trace = []\<rparr>) = None"
  by code_simp

lemma flaky_commands:
  "commands (trace \<lparr>fs = installed_tree, trace = []\<rparr>) @
     map (patch_command (RelPath [''out'', ''cpython-3.12.1'']))
       ([RelPath [''out'', ''cpython-3.12.1'', ''lib'', ''a.dylib'']]
        @ [RelPath [''out'', ''cpython-3.12.1'', ''lib'', ''b.dylib'']])
   = [[''install_name_tool'', ''-id'', ''@executable_path/../lib/a.dylib'',
        ''out/cpython-3.12.1/lib/a.dylib''],
       [''install_name_tool'', ''-id'', ''@executable_path/../lib/b.dylib'',
        ''out/cpython-3.12.1/lib/b.dylib'']]"
  by code_simp

lemma flaky_failed_command:
  "patch_command (RelPath [''out'', ''cpython-3.12.1''])
      (RelPath [''out'', ''cpython-3.12.1'', ''lib'', ''b.dylib''])
   = [''install_name_tool'', ''-id'', ''@executable_path/../lib/b.dylib'',
        ''out/cpython-3.12.1/lib/b.dylib'']"
  by code_simp

lemma dylibs_commands:
  "commands (trace \<lparr>fs = installed_tree, trace = []\<rparr>) @
     map (patch_command (RelPath [''out'', ''cpython-3.12.1'']))
       (glob dylibs_env (fs \<lparr>fs = installed_tree, trace = []\<rparr>) True
          (child (child (child (RelPath [''out'', ''cpython-3.12.1'']) ''lib'') ''**'') ''*.dylib''))
   = [[''install_name_tool'', ''-id'', ''@executable_path/../lib/a.dylib'',
        ''out/cpython-3.12.1/lib/a.dylib''],
       [''install_name_tool'', ''-id'', ''@executable_path/../lib/b.dylib'',
        ''out/cpython-3.12.1/lib/b.dylib''],
       [''install_name_tool'', ''-id'', ''@executable_path/../lib/c.dylib'',
        ''out/cpython-3.12.1/lib/c.dylib'']]"
  by code_simp

section \<open>Properties of the Path Search-Replace Engine\<close>

text \<open>
  C1 (amended). For a non-empty \<open>old_bytes\<close> and every file of the expanded file set that
  contains at least one occurrence of it, after a replace-mode pass the file's content
  is the original content with every occurrence the scan finds replaced by
  \<open>new_bytes\<close>: the original is the pieces between the occurrences joined by
  \<open>old_bytes\<close>, the new content the same pieces joined by \<open>new_bytes\<close>, there is one piece
  more than there are occurrences, and no piece contains \<open>old_bytes\<close>. So every byte
  outside the substituted ranges is unchanged, and an occurrence of \<open>old_bytes\<close> in the
  new content, if there is one, overlaps an inserted \<open>new_bytes\<close>.
\<close>

theorem replace_pass_rewrites_matches:
  assumes "p \<in> set (file_set e (fs w) glob_patterns)"
      and "read_file (fs w) p = Some content"
      and "old_bytes \<noteq> []"
      and "sublist old_bytes content"
  shows "read_file (fs (snd (search_replace_in_files e glob_patterns old_bytes (Some new_bytes) w))) p
           = Some (replace_bytes old_bytes new_bytes content)
         \<and> content = join_bytes old_bytes (split_bytes old_bytes content)
         \<and> replace_bytes old_bytes new_bytes content
             = join_bytes new_bytes (split_bytes old_bytes content)
         \<and> length (split_bytes old_bytes content) = count_bytes old_bytes content + 1
         \<and> 0 < count_bytes old_bytes content
         \<and> (\<forall>s\<in>set (split_bytes old_bytes content). \<not> sublist old_bytes s)"
proof -
  have "read_file (fs (snd (search_replace_in_files e glob_patterns old_bytes (Some new_bytes) w))) p
          = Some (replace_bytes old_bytes new_bytes content)"
    using scan_files_same[OF distinct_file_set assms(1)] assms(2)
    by (simp add: search_replace_in_files_def)
  moreover have "0 < count_bytes old_bytes content"
    using assms(4) count_bytes_zero_iff[of old_bytes content] by simp
  ultimately show ?thesis
    using assms(3) split_bytes_free[OF assms(3)]
    by (simp add: join_split_bytes join_split_replace length_split_bytes
        replace_bytes_def count_bytes_def)
qed

text \<open>C1, at a file with a shebang line: \<^verbatim>\<open>/t\<close> becomes \<^verbatim>\<open>.\<close>.\<close>

theorem replace_pass_rewrites_matches_witness:
  "read_file (fs (snd (search_replace_in_files engine_env [RelPath [''*'']] ''/t'' (Some ''.'')
      engine_world))) [''srv'', ''a''] = Some ''#!./bin/python''
   \<and> split_bytes ''/t'' ''#!/t/bin/python'' = [''#!'', ''/bin/python'']"
proof -
  have h1: "[''srv'', ''a''] \<in> set (file_set engine_env (fs engine_world) [RelPath [''*'']])"
    by code_simp
  have h2: "read_file (fs engine_world) [''srv'', ''a''] = Some ''#!/t/bin/python''"
    by code_simp
  have h3: "''/t'' \<noteq> []"
    by simp
  have h4: "sublist ''/t'' ''#!/t/bin/python''"
    by code_simp
  have v: "replace_bytes ''/t'' ''.'' ''#!/t/bin/python'' = ''#!./bin/python''"
    by code_simp
  have s: "split_bytes ''/t'' ''#!/t/bin/python'' = [''#!'', ''/bin/python'']"
    by code_simp
  have "read_file (fs (snd (search_replace_in_files engine_env [RelPath [''*'']] ''/t'' (Some ''.'')
      engine_world))) [''srv'', ''a''] = Some (replace_bytes ''/t'' ''.'' ''#!/t/bin/python'')"
    using replace_pass_rewrites_matches[OF h1 h2 h3 h4, of "''.''"] by (rule conjunct1)
  then show ?thesis
    by (simp only: v s)
qed

text \<open>
  C1 as stated fails: with \<open>new_bytes = old_bytes\<close> (the builder's arguments when the
  target directory is given as an absolute path) the rewritten file still contains
  \<open>old_bytes\<close>.
\<close>

theorem replace_pass_leaves_matches_counterexample:
  "[''srv'', ''a''] \<in> set (file_set engine_env (fs engine_world) [RelPath [''*'']])
   \<and> read_file (fs engine_world) [''srv'', ''a''] = Some ''#!/t/bin/python''
   \<and> sublist ''/t'' ''#!/t/bin/python''
   \<and> read_file (fs (snd (search_replace_in_files engine_env [RelPath [''*'']] ''/t'' (Some ''/t'')
        engine_world))) [''srv'', ''a''] = Some ''#!/t/bin/python''"
  by code_simp

text \<open>
  C2. For every file of the expanded file set that contains no occurrence of
  \<open>old_bytes\<close>, a replace-mode pass leaves the content as it was and does not write the
  file.
\<close>

theorem replace_pass_keeps_unmatched:
  assumes "p \<in> set (file_set e (fs w) glob_patterns)"
      and "read_file (fs w) p = Some content"
      and "\<not> sublist old_bytes content"
  shows "read_file (fs (snd (search_replace_in_files e glob_patterns old_bytes (Some new_bytes) w))) p
           = Some content
         \<and> Wrote p \<notin> set (drop (length (trace w))
              (trace (snd (search_replace_in_files e glob_patterns old_bytes (Some new_bytes) w))))"
proof -
  have z: "count_bytes old_bytes content = 0"
    using assms(3) by (simp add: count_bytes_zero_iff)
  have "read_file (fs (snd (search_replace_in_files e glob_patterns old_bytes (Some new_bytes) w))) p
          = Some content"
    using scan_files_same[OF distinct_file_set assms(1)] assms(2) z
    by (simp add: search_replace_in_files_def replace_bytes_no_match)
  moreover have "matches_in (fs w) old_bytes p = 0"
    using assms(2) z by (simp add: matches_in_def)
  then have "Wrote p \<notin> set (drop (length (trace w))
      (trace (snd (search_replace_in_files e glob_patterns old_bytes (Some new_bytes) w))))"
    by (auto simp: search_replace_in_files_def scan_files_trace[OF distinct_file_set])
  ultimately show ?thesis by simp
qed

text \<open>C2, at the file without the path.\<close>

theorem replace_pass_keeps_unmatched_witness:
  "read_file (fs (snd (search_replace_in_files engine_env [RelPath [''*'']] ''/t'' (Some ''.'')
      engine_world))) [''srv'', ''b''] = Some ''no path here''
   \<and> Wrote [''srv'', ''b''] \<notin> set (drop (length (trace engine_world))
        (trace (snd (search_replace_in_files engine_env [RelPath [''*'']] ''/t'' (Some ''.'')
           engine_world))))"
proof -
  have h1: "[''srv'', ''b''] \<in> set (file_set engine_env (fs engine_world) [RelPath [''*'']])"
    by code_simp
  have h2: "read_file (fs engine_world) [''srv'', ''b''] = Some ''no path here''"
    by code_simp
  have h3: "\<not> sublist ''/t'' ''no path here''"
    by code_simp
  show ?thesis
    by (rule replace_pass_keeps_unmatched[OF h1 h2 h3])
qed

text \<open>
  C3 (amended). When the first replace pass leaves no occurrence of \<open>old_bytes\<close> in any
  file of the file set, a second pass with the same arguments finds zero matches,
  writes no file and changes no content.
\<close>

theorem second_pass_finds_nothing:
  assumes "w1 = snd (search_replace_in_files e glob_patterns old_bytes (Some new_bytes) w)"
      and "\<forall>p\<in>set (file_set e (fs w1) glob_patterns). matches_in (fs w1) old_bytes p = 0"
  shows "search_replace_in_files e glob_patterns old_bytes (Some new_bytes) w1 = (0, w1)"
  using assms(2) by (simp add: search_replace_in_files_def scan_files_no_match)

text \<open>C3, where the first pass has replaced \<^verbatim>\<open>/t\<close> by \<^verbatim>\<open>.\<close>.\<close>

theorem second_pass_finds_nothing_witness:
  "search_replace_in_files engine_env [RelPath [''*'']] ''/t'' (Some ''.'')
     (snd (search_replace_in_files engine_env [RelPath [''*'']] ''/t'' (Some ''.'') engine_world))
   = (0, snd (search_replace_in_files engine_env [RelPath [''*'']] ''/t'' (Some ''.'') engine_world))"
proof -
  have h: "\<forall>p\<in>set (file_set engine_env
             (fs (snd (search_replace_in_files engine_env [RelPath [''*'']] ''/t'' (Some ''.'') engine_world)))
             [RelPath [''*'']]).
           matches_in (fs (snd (search_replace_in_files engine_env [RelPath [''*'']] ''/t'' (Some ''.'')
             engine_world))) ''/t'' p = 0"
    by code_simp
  show ?thesis
    by (rule second_pass_finds_nothing[OF refl h])
qed

text \<open>
  C3 as stated fails: replacing \<^verbatim>\<open>t\<close> by \<^verbatim>\<open>tt\<close>, the second pass finds six matches and
  changes the content again.
\<close>

theorem second_pass_counterexample:
  "fst (search_replace_in_files engine_env [RelPath [''*'']] ''t'' (Some ''tt'')
     (snd (search_replace_in_files engine_env [RelPath [''*'']] ''t'' (Some ''tt'') engine_world))) = 6
   \<and> read_file (fs (snd (search_replace_in_files engine_env [RelPath [''*'']] ''t'' (Some ''tt'')
        engine_world))) [''srv'', ''a''] = Some ''#!/tt/bin/pytthon''
   \<and> read_file (fs (snd (search_replace_in_files engine_env [RelPath [''*'']] ''t'' (Some ''tt'')
        (snd (search_replace_in_files engine_env [RelPath [''*'']] ''t'' (Some ''tt'') engine_world)))))
        [''srv'', ''a''] = Some ''#!/tttt/bin/pytttthon''"
  by code_simp

text \<open>
  C4. A scan-only pass (\<open>new_bytes\<close> null) leaves the world as it is (no file content
  changes, nothing is written), and the integer it returns is the sum, over the files
  of the expanded file set, of the occurrences of \<open>old_bytes\<close> in each; it is zero
  exactly when no file of the set contains \<open>old_bytes\<close>.
\<close>

theorem scan_only_counts:
  "search_replace_in_files e glob_patterns old_bytes None w =
     (sum_list (map (matches_in (fs w) old_bytes) (file_set e (fs w) glob_patterns)), w)
   \<and> ((fst (search_replace_in_files e glob_patterns old_bytes None w) = 0) =
       (\<forall>p\<in>set (file_set e (fs w) glob_patterns).
          \<forall>content. read_file (fs w) p = Some content \<longrightarrow> \<not> sublist old_bytes content))"
proof -
  have r: "search_replace_in_files e glob_patterns old_bytes None w =
     (sum_list (map (matches_in (fs w) old_bytes) (file_set e (fs w) glob_patterns)), w)"
    using scan_files_fst[OF distinct_file_set, of old_bytes None e "fs w" glob_patterns 0 w]
          scan_files_None[of old_bytes "file_set e (fs w) glob_patterns" 0 w]
    by (simp add: search_replace_in_files_def prod_eq_iff)
  have "(fst (search_replace_in_files e glob_patterns old_bytes None w) = 0) =
       (\<forall>p\<in>set (file_set e (fs w) glob_patterns). matches_in (fs w) old_bytes p = 0)"
    unfolding r by simp
  then show ?thesis
    using r by (simp only: matches_in_zero_iff)
qed

text \<open>C4, counting \<^verbatim>\<open>t\<close> in the two files.\<close>

theorem scan_only_counts_witness:
  "search_replace_in_files engine_env [RelPath [''*'']] ''t'' None engine_world = (3, engine_world)"
proof -
  have "sum_list (map (matches_in (fs engine_world) ''t'')
          (file_set engine_env (fs engine_world) [RelPath [''*'']])) = 3"
    by code_simp
  then show ?thesis
    using scan_only_counts[of engine_env "[RelPath [''*'']]" "''t''" engine_world, THEN conjunct1]
    by simp
qed

section \<open>Properties of the builder\<close>

text \<open>
  C5. If the target directory exists and \<open>force\<close> is false, the build raises
  \<^verbatim>\<open>FileExistsError\<close> and leaves the world as it found it: no external command has
  been run, no file written, the filesystem is unchanged.
\<close>

theorem build_refuses_existing_target:
  assumes "path_exists e (fs w) target_dir" and "\<not> force"
  shows "build_python_env e package_list target_dir python_version force w =
           (Some (FileExistsError (str_path target_dir)), w)"
  using assms by (simp add: build_python_env_def)

text \<open>C5, in the world the installation has left: the target exists.\<close>

theorem build_refuses_existing_target_witness:
  "build_python_env build_env [''cowsay''] (RelPath [''out'']) ''3.12'' False world_installed
     = (Some (FileExistsError ''out''), world_installed)"
proof -
  have h: "path_exists build_env (fs world_installed) (RelPath [''out''])"
    by code_simp
  have n: "\<not> False"
    by simp
  have s: "str_path (RelPath [''out'']) = ''out''"
    by simp
  show ?thesis
    using build_refuses_existing_target[OF h n, of "[''cowsay'']" "''3.12''"] by (simp only: s)
qed

text \<open>
  C6. After the interpreter has been installed: if the glob for the install root
  matches nothing, the build raises \<^verbatim>\<open>FileNotFoundError\<close> in the world the
  installation left, where the installation is the only command run; if it matches,
  the first match is the install root: it is where \<^verbatim>\<open>bin/pip\<close> is looked for, and the
  interpreter the package installation (the next command run) is given.
\<close>

theorem build_locates_install_root:
  assumes "\<not> (path_exists e (fs w) target_dir \<and> \<not> force)"
      and "run e [''uv'', ''python'', ''install'', ''--managed-python'', ''--install-dir'',
                  str_path (resolve e target_dir), python_version] w = (None, w1)"
  shows "(glob e (fs w1) False (child target_dir (''cpython-'' @ python_version @ ''.*'')) = [] \<longrightarrow>
            build_python_env e package_list target_dir python_version force w =
              (Some (FileNotFoundError
                 (str_path (child target_dir (''cpython-'' @ python_version @ ''.*'')))), w1)
            \<and> commands (trace w1) = commands (trace w) @
                 [[''uv'', ''python'', ''install'', ''--managed-python'', ''--install-dir'',
                   str_path (resolve e target_dir), python_version]])
       \<and> (glob e (fs w1) False (child target_dir (''cpython-'' @ python_version @ ''.*''))
            = install_root # others \<longrightarrow>
            (\<not> path_exists e (fs w1) (child (child install_root ''bin'') ''pip'') \<longrightarrow>
               build_python_env e package_list target_dir python_version force w =
                 (Some (FileNotFoundError (str_path (child (child install_root ''bin'') ''pip''))), w1))
            \<and> (path_exists e (fs w1) (child (child install_root ''bin'') ''pip'') \<longrightarrow>
               prefix (trace w1 @
                       [Ran ([''uv'', ''pip'', ''install''] @ package_list @
                             [''--python'', str_path install_root, ''--break-system-packages''])])
                 (trace (snd (build_python_env e package_list target_dir python_version force w)))))"
proof -
  have t1: "commands (trace w1) = commands (trace w) @
      [[''uv'', ''python'', ''install'', ''--managed-python'', ''--install-dir'',
        str_path (resolve e target_dir), python_version]]"
  proof -
    have "trace w1 = trace w @
        [Ran [''uv'', ''python'', ''install'', ''--managed-python'', ''--install-dir'',
              str_path (resolve e target_dir), python_version]]"
      using assms(2) by (metis run_trace snd_conv)
    then show ?thesis by (simp add: commands_append)
  qed
  have a: "glob e (fs w1) False (child target_dir (''cpython-'' @ python_version @ ''.*'')) = [] \<Longrightarrow>
      build_python_env e package_list target_dir python_version force w =
        (Some (FileNotFoundError
           (str_path (child target_dir (''cpython-'' @ python_version @ ''.*'')))), w1)"
    using assms by (simp add: build_python_env_def Let_def)
  have b: "build_python_env e package_list target_dir python_version force w =
        (Some (FileNotFoundError (str_path (child (child install_root ''bin'') ''pip''))), w1)"
    if "glob e (fs w1) False (child target_dir (''cpython-'' @ python_version @ ''.*''))
            = install_root # others"
      and "\<not> path_exists e (fs w1) (child (child install_root ''bin'') ''pip'')"
    using assms that by (simp add: build_python_env_def Let_def)
  have c: "prefix (trace w1 @
                       [Ran ([''uv'', ''pip'', ''install''] @ package_list @
                             [''--python'', str_path install_root, ''--break-system-packages''])])
                 (trace (snd (build_python_env e package_list target_dir python_version force w)))"
    if g: "glob e (fs w1) False (child target_dir (''cpython-'' @ python_version @ ''.*''))
            = install_root # others"
      and p: "path_exists e (fs w1) (child (child install_root ''bin'') ''pip'')"
  proof -
    define r where "r = run e ([''uv'', ''pip'', ''install''] @ package_list @
                             [''--python'', str_path install_root, ''--break-system-packages'']) w1"
    have tr: "trace (snd r) = trace w1 @
                       [Ran ([''uv'', ''pip'', ''install''] @ package_list @
                             [''--python'', str_path install_root, ''--break-system-packages''])]"
      by (simp add: r_def run_trace)
    define F where "F = (\<lambda>w2.
                case (if platform e = ''darwin''
                       then update_macos_dylib_ids e install_root
                              (clean_pycache_dirs e (resolve e target_dir) w2)
                       else (None, clean_pycache_dirs e (resolve e target_dir) w2)) of
                   (None, w4) \<Rightarrow>
                     (None, success (Created package_list (str_path target_dir))
                        (replace_absolute_paths e install_root
                           (str_path (resolve e target_dir)) (str_path target_dir) w4))
                 | (Some err, w4) \<Rightarrow> (Some err, w4))"
    have "snd (build_python_env e package_list target_dir python_version force w) =
       snd (case r of (None, w2) \<Rightarrow> F w2 | (Some err, w2) \<Rightarrow> (Some err, w2))"
      unfolding build_python_env_def Let_def r_def F_def using assms g p by auto
    then have eq: "snd (build_python_env e package_list target_dir python_version force w) =
       (if fst r = None then snd (F (snd r)) else snd r)"
      unfolding result_case_snd .
    have "prefix (trace (snd r)) (trace (snd (F (snd r))))"
      unfolding F_def by (rule relocation_prefix)
    then show ?thesis
      unfolding eq tr[symmetric] by simp
  qed
  show ?thesis using t1 a b c by blast
qed

text \<open>C6, where the installation creates nothing (no install root is found), and where it
  creates \<^verbatim>\<open>out/cpython-3.12.1\<close> (the package installation is the next command, for that
  interpreter).\<close>

theorem build_locates_install_root_witness:
  "build_python_env bare_env [''cowsay''] (RelPath [''out'']) ''3.12'' False empty_world
     = (Some (FileNotFoundError ''out/cpython-3.12.*''),
        \<lparr>fs = fs empty_world,
         trace = [Ran [''uv'', ''python'', ''install'', ''--managed-python'', ''--install-dir'',
                       ''/home/out'', ''3.12'']]\<rparr>)
   \<and> prefix (trace world_installed @
         [Ran [''uv'', ''pip'', ''install'', ''cowsay'', ''--python'', ''out/cpython-3.12.1'',
               ''--break-system-packages'']])
        (trace (snd (build_python_env build_env [''cowsay''] (RelPath [''out'']) ''3.12'' False
           empty_world)))"
proof -
  have a1: "\<not> (path_exists bare_env (fs empty_world) (RelPath [''out'']) \<and> \<not> False)"
    by code_simp
  have a2: "run bare_env [''uv'', ''python'', ''install'', ''--managed-python'', ''--install-dir'',
                  str_path (resolve bare_env (RelPath [''out''])), ''3.12''] empty_world
     = (None, \<lparr>fs = fs empty_world,
         trace = [Ran [''uv'', ''python'', ''install'', ''--managed-python'', ''--install-dir'',
                       ''/home/out'', ''3.12'']]\<rparr>)"
    by code_simp
  have a3: "glob bare_env (fs \<lparr>fs = fs empty_world,
         trace = [Ran [''uv'', ''python'', ''install'', ''--managed-python'', ''--install-dir'',
                       ''/home/out'', ''3.12'']]\<rparr>) False
       (child (RelPath [''out'']) (''cpython-'' @ ''3.12'' @ ''.*'')) = []"
    by code_simp
  have s: "str_path (child (RelPath [''out'']) (''cpython-'' @ ''3.12'' @ ''.*'')) = ''out/cpython-3.12.*''"
    "str_path (RelPath [''out'', ''cpython-3.12.1'']) = ''out/cpython-3.12.1''"
    by simp_all
  have 1: "build_python_env bare_env [''cowsay''] (RelPath [''out'']) ''3.12'' False empty_world
     = (Some (FileNotFoundError ''out/cpython-3.12.*''),
        \<lparr>fs = fs empty_world,
         trace = [Ran [''uv'', ''python'', ''install'', ''--managed-python'', ''--install-dir'',
                       ''/home/out'', ''3.12'']]\<rparr>)"
    using build_locates_install_root[OF a1 a2, where package_list = "[''cowsay'']"] a3
    by (simp add: s)
  have 2: "prefix (trace world_installed @
         [Ran [''uv'', ''pip'', ''install'', ''cowsay'', ''--python'', ''out/cpython-3.12.1'',
               ''--break-system-packages'']])
        (trace (snd (build_python_env build_env [''cowsay''] (RelPath [''out'']) ''3.12'' False
           empty_world)))"
    using build_locates_install_root[OF example_target_absent example_install,
        where install_root = "RelPath [''out'', ''cpython-3.12.1'']" and others = "[]"
          and package_list = "[''cowsay'']"]
      example_install_root example_pip_exists
    by (simp add: s)
  show ?thesis using 1 2 by (rule conjI)
qed

text \<open>
  C7. A build that reaches the replacement step (no step before it raises) returns
  without error: after the replace pass (world \<open>w5\<close>) it scans the whole install-root
  tree for the old absolute path without changing the filesystem, prints the warning
  with the count \<open>m\<close> of that scan if \<open>m\<close> is positive and the confirmation if it is
  zero, and ends with the success report.
\<close>

theorem build_verifies_and_succeeds:
  assumes "\<not> (path_exists e (fs w) target_dir \<and> \<not> force)"
      and "run e [''uv'', ''python'', ''install'', ''--managed-python'', ''--install-dir'',
                  str_path (resolve e target_dir), python_version] w = (None, w1)"
      and "glob e (fs w1) False (child target_dir (''cpython-'' @ python_version @ ''.*''))
             = install_root # others"
      and "path_exists e (fs w1) (child (child install_root ''bin'') ''pip'')"
      and "run e ([''uv'', ''pip'', ''install''] @ package_list @
                  [''--python'', str_path install_root, ''--break-system-packages'']) w1 = (None, w2)"
      and "(if platform e = ''darwin''
            then update_macos_dylib_ids e install_root (clean_pycache_dirs e (resolve e target_dir) w2)
            else (None, clean_pycache_dirs e (resolve e target_dir) w2)) = (None, w4)"
      and "w5 = snd (search_replace_in_files e
                  [child (child install_root ''bin'') ''*'',
                   child (child (child install_root ''lib'') ''**'') ''*.py'']
                  (str_path (resolve e target_dir)) (Some (str_path target_dir))
                  (info (Replacing (map str_path
                     [child (child install_root ''bin'') ''*'',
                      child (child (child install_root ''lib'') ''**'') ''*.py''])
                     (str_path (resolve e target_dir)) (str_path target_dir))
                   (info Blank w4)))"
      and "m = fst (search_replace_in_files e [child (child install_root ''**'') ''*'']
                  (str_path (resolve e target_dir)) None
                  (info SanityChecking (info Blank w5)))"
  shows "fst (build_python_env e package_list target_dir python_version force w) = None
       \<and> fs (snd (build_python_env e package_list target_dir python_version force w)) = fs w5
       \<and> trace (snd (build_python_env e package_list target_dir python_version force w)) =
           trace w5 @
           [Info Blank, Info SanityChecking,
            if m \<noteq> 0 then Warn (MatchesFound m (str_path (resolve e target_dir)))
            else Info NoPathsFound,
            Success (Created package_list (str_path target_dir))]
       \<and> m = sum_list (map (matches_in (fs w5) (str_path (resolve e target_dir)))
                 (file_set e (fs w5) [child (child install_root ''**'') ''*'']))"
proof -
  have b: "build_python_env e package_list target_dir python_version force w =
      (None, success (Created package_list (str_path target_dir))
         (replace_absolute_paths e install_root
            (str_path (resolve e target_dir)) (str_path target_dir) w4))"
    unfolding build_python_env_def Let_def using assms(1-6) by auto
  have m: "m = sum_list (map (matches_in (fs w5) (str_path (resolve e target_dir)))
                 (file_set e (fs w5) [child (child install_root ''**'') ''*'']))"
    unfolding assms(8) by (simp add: search_replace_scan_only info_simps)
  show ?thesis
    unfolding b
    using replace_absolute_paths_result[OF assms(7) m] m
    by (simp add: success_simps)
qed

text \<open>C7, in the example build: one occurrence is left (in \<^verbatim>\<open>lib/site.cfg\<close>), the warning is
  printed, and the build succeeds.\<close>

theorem build_verifies_and_succeeds_witness:
  "fst (build_python_env build_env [''cowsay''] (RelPath [''out'']) ''3.12'' False empty_world) = None
   \<and> fs (snd (build_python_env build_env [''cowsay''] (RelPath [''out'']) ''3.12'' False empty_world))
       = relocated_tree
   \<and> trace (snd (build_python_env build_env [''cowsay''] (RelPath [''out'']) ''3.12'' False empty_world))
       = trace world_replaced @
         [Info Blank, Info SanityChecking, Warn (MatchesFound 1 ''/home/out''),
          Success (Created [''cowsay''] ''out'')]"
proof -
  have s: "str_path (resolve build_env (RelPath [''out''])) = ''/home/out''"
    "str_path (RelPath [''out'']) = ''out''"
    by code_simp+
  have f: "fs world_replaced = relocated_tree"
    by (simp add: world_replaced_def)
  note T = build_verifies_and_succeeds[OF example_target_absent example_install
      example_install_root example_pip_exists example_packages example_patched
      example_replaced example_leftover]
  have 1: "fst (build_python_env build_env [''cowsay''] (RelPath [''out'']) ''3.12'' False empty_world) = None"
    using T by (rule conjunct1)
  have 2: "fs (snd (build_python_env build_env [''cowsay''] (RelPath [''out'']) ''3.12'' False empty_world))
       = relocated_tree"
    using T[THEN conjunct2, THEN conjunct1] by (simp add: f)
  have 3: "trace (snd (build_python_env build_env [''cowsay''] (RelPath [''out'']) ''3.12'' False empty_world))
       = trace world_replaced @
         [Info Blank, Info SanityChecking, Warn (MatchesFound 1 ''/home/out''),
          Success (Created [''cowsay''] ''out'')]"
    using T[THEN conjunct2, THEN conjunct2, THEN conjunct1] by (simp add: s)
  show ?thesis using 1 2 3 by (intro conjI)
qed

text \<open>
  C8 (amended). The patcher runs the patching tool on the paths the glob
  \<^verbatim>\<open>lib/**/*.dylib\<close> returned, in that order, one invocation (\<open>patch_command\<close>) per
  entry, and stops at the first entry that fails. In five parts:
  the invocations it has run are those of a first part of the returned list;
  when it returns without error, it has run one invocation for every entry;
  when the loop over the entries before an entry \<open>d\<close> ends without error and the tool
  fails on \<open>d\<close>, the patcher raises \<open>CalledProcessError\<close> with the command of \<open>d\<close>, and
  the invocations it has run are those of the entries up to and including \<open>d\<close>, none
  of a later entry;
  and when it raises an error, there is a first failing entry: the loop over the
  entries before it ended without error, and either the entry is not below the
  installation root (\<open>relative_to\<close> raises, and no invocation is run for it), or the
  tool failed on it, the error carries its command, and that is the last command
  run; so the command in a \<open>CalledProcessError\<close> is always the last one run.
\<close>

theorem update_macos_dylib_ids_invocations:
  "(\<exists>k\<le>length (glob e (fs w) True (child (child (child install_root ''lib'') ''**'') ''*.dylib'')).
      commands (trace (snd (update_macos_dylib_ids e install_root w))) =
        commands (trace w) @
        map (patch_command install_root)
          (take k (glob e (fs w) True (child (child (child install_root ''lib'') ''**'') ''*.dylib''))))
   \<and> (fst (update_macos_dylib_ids e install_root w) = None \<longrightarrow>
        commands (trace (snd (update_macos_dylib_ids e install_root w))) =
          commands (trace w) @
          map (patch_command install_root)
            (glob e (fs w) True (child (child (child install_root ''lib'') ''**'') ''*.dylib'')))
   \<and> (glob e (fs w) True (child (child (child install_root ''lib'') ''**'') ''*.dylib'')
          = pre @ d # post
        \<and> update_dylibs e install_root pre w = (None, w1)
        \<and> relative_to d install_root = Inr rel
        \<and> \<not> fst (tool e (patch_command install_root d) (fs w1)) \<longrightarrow>
        fst (update_macos_dylib_ids e install_root w)
          = Some (CalledProcessError (patch_command install_root d))
        \<and> commands (trace (snd (update_macos_dylib_ids e install_root w))) =
            commands (trace w) @ map (patch_command install_root) (pre @ [d]))
   \<and> (fst (update_macos_dylib_ids e install_root w) = Some err \<longrightarrow>
        (\<exists>failed_at before after w_before.
           glob e (fs w) True (child (child (child install_root ''lib'') ''**'') ''*.dylib'')
             = before @ failed_at # after
           \<and> update_dylibs e install_root before w = (None, w_before)
           \<and> ((relative_to failed_at install_root = Inl err
                \<and> commands (trace (snd (update_macos_dylib_ids e install_root w))) =
                    commands (trace w) @ map (patch_command install_root) before)
              \<or> (\<not> fst (tool e (patch_command install_root failed_at) (fs w_before))
                \<and> err = CalledProcessError (patch_command install_root failed_at)
                \<and> commands (trace (snd (update_macos_dylib_ids e install_root w))) =
                    commands (trace w) @ map (patch_command install_root) (before @ [failed_at])))))
   \<and> (fst (update_macos_dylib_ids e install_root w) = Some (CalledProcessError cmd) \<longrightarrow>
        commands (trace (snd (update_macos_dylib_ids e install_root w))) \<noteq> []
        \<and> last (commands (trace (snd (update_macos_dylib_ids e install_root w)))) = cmd)"
proof -
  define ds where "ds = glob e (fs w) True (child (child (child install_root ''lib'') ''**'') ''*.dylib'')"
  have U: "update_macos_dylib_ids e install_root w = update_dylibs e install_root ds w"
    by (simp add: update_macos_dylib_ids_def Let_def ds_def)
  from update_dylibs_commands[of ds e install_root w] obtain k where k: "k \<le> length ds"
    "commands (trace (snd (update_dylibs e install_root ds w))) =
       commands (trace w) @ map (patch_command install_root) (take k ds)"
    "fst (update_dylibs e install_root ds w) = None \<longrightarrow> k = length ds"
    by (elim exE conjE) (rule that)
  have 1: "\<exists>k\<le>length ds. commands (trace (snd (update_dylibs e install_root ds w))) =
       commands (trace w) @ map (patch_command install_root) (take k ds)"
    using k(1,2) by (intro exI[of _ k] conjI)
  have 2: "fst (update_dylibs e install_root ds w) = None \<longrightarrow>
      commands (trace (snd (update_dylibs e install_root ds w))) =
        commands (trace w) @ map (patch_command install_root) ds"
    using k(2,3) by simp
  have 3: "ds = pre @ d # post
        \<and> update_dylibs e install_root pre w = (None, w1)
        \<and> relative_to d install_root = Inr rel
        \<and> \<not> fst (tool e (patch_command install_root d) (fs w1)) \<longrightarrow>
        fst (update_dylibs e install_root ds w)
          = Some (CalledProcessError (patch_command install_root d))
        \<and> commands (trace (snd (update_dylibs e install_root ds w))) =
            commands (trace w) @ map (patch_command install_root) (pre @ [d])"
    using update_dylibs_stops[of e install_root pre w w1 d rel post] by simp
  have 4: "\<exists>failed_at before after w_before.
           ds = before @ failed_at # after
           \<and> update_dylibs e install_root before w = (None, w_before)
           \<and> ((relative_to failed_at install_root = Inl err
                \<and> commands (trace (snd (update_dylibs e install_root ds w))) =
                    commands (trace w) @ map (patch_command install_root) before)
              \<or> (\<not> fst (tool e (patch_command install_root failed_at) (fs w_before))
                \<and> err = CalledProcessError (patch_command install_root failed_at)
                \<and> commands (trace (snd (update_dylibs e install_root ds w))) =
                    commands (trace w) @ map (patch_command install_root) (before @ [failed_at])))"
    if f: "fst (update_dylibs e install_root ds w) = Some err"
  proof -
    from update_dylibs_error[OF f] obtain b x a wb where p: "ds = b @ x # a"
      "update_dylibs e install_root b w = (None, wb)"
      "relative_to x install_root = Inl err
          \<or> ((\<exists>rel. relative_to x install_root = Inr rel)
             \<and> \<not> fst (tool e (patch_command install_root x) (fs wb))
             \<and> err = CalledProcessError (patch_command install_root x))"
      by (elim exE conjE) (rule that)
    from p(3) have "(relative_to x install_root = Inl err
                \<and> commands (trace (snd (update_dylibs e install_root ds w))) =
                    commands (trace w) @ map (patch_command install_root) b)
              \<or> (\<not> fst (tool e (patch_command install_root x) (fs wb))
                \<and> err = CalledProcessError (patch_command install_root x)
                \<and> commands (trace (snd (update_dylibs e install_root ds w))) =
                    commands (trace w) @ map (patch_command install_root) (b @ [x]))"
    proof
      assume a: "relative_to x install_root = Inl err"
      show ?thesis
        using update_dylibs_not_under_root(2)[OF p(2) a, of a] a unfolding p(1) by simp
    next
      assume a: "(\<exists>rel. relative_to x install_root = Inr rel)
             \<and> \<not> fst (tool e (patch_command install_root x) (fs wb))
             \<and> err = CalledProcessError (patch_command install_root x)"
      then obtain rel where r: "relative_to x install_root = Inr rel" by (elim conjE exE)
      from a have t: "\<not> fst (tool e (patch_command install_root x) (fs wb))"
        and e: "err = CalledProcessError (patch_command install_root x)" by simp_all
      show ?thesis
        using update_dylibs_stops(2)[OF p(2) r t, of a] t e unfolding p(1) by simp
    qed
    then have "ds = b @ x # a
           \<and> update_dylibs e install_root b w = (None, wb)
           \<and> ((relative_to x install_root = Inl err
                \<and> commands (trace (snd (update_dylibs e install_root ds w))) =
                    commands (trace w) @ map (patch_command install_root) b)
              \<or> (\<not> fst (tool e (patch_command install_root x) (fs wb))
                \<and> err = CalledProcessError (patch_command install_root x)
                \<and> commands (trace (snd (update_dylibs e install_root ds w))) =
                    commands (trace w) @ map (patch_command install_root) (b @ [x])))"
      using p(1,2) by simp
    then show ?thesis by (intro exI)
  qed
  have 5: "commands (trace (snd (update_dylibs e install_root ds w))) \<noteq> []
        \<and> last (commands (trace (snd (update_dylibs e install_root ds w)))) = cmd"
    if f: "fst (update_dylibs e install_root ds w) = Some (CalledProcessError cmd)"
  proof -
    from update_dylibs_error[OF f] obtain b x a wb where p: "ds = b @ x # a"
      "update_dylibs e install_root b w = (None, wb)"
      "relative_to x install_root = Inl (CalledProcessError cmd)
          \<or> ((\<exists>rel. relative_to x install_root = Inr rel)
             \<and> \<not> fst (tool e (patch_command install_root x) (fs wb))
             \<and> CalledProcessError cmd = CalledProcessError (patch_command install_root x))"
      by (elim exE conjE) (rule that)
    from p(3) show ?thesis
    proof
      assume "relative_to x install_root = Inl (CalledProcessError cmd)"
      from relative_to_Inl[OF this] show ?thesis by simp
    next
      assume a: "(\<exists>rel. relative_to x install_root = Inr rel)
             \<and> \<not> fst (tool e (patch_command install_root x) (fs wb))
             \<and> CalledProcessError cmd = CalledProcessError (patch_command install_root x)"
      then obtain rel where r: "relative_to x install_root = Inr rel" by (elim conjE exE)
      from a have t: "\<not> fst (tool e (patch_command install_root x) (fs wb))"
        and c: "cmd = patch_command install_root x" by simp_all
      show ?thesis
        using update_dylibs_stops(2)[OF p(2) r t, of a] c unfolding p(1) by simp
    qed
  qed
  show ?thesis
    unfolding U ds_def[symmetric]
    using 1 2 3 4 5 by (intro conjI impI) simp_all
qed

text \<open>
  C8, on three libraries: when the tool fails on the second, the patcher raises with
  that command, having run the first two invocations and not the third, and the
  failing entry is the second library; when the tool fails on none, all three
  invocations are run.
\<close>

theorem update_macos_dylib_ids_invocations_witness:
  "fst (update_macos_dylib_ids flaky_env (RelPath [''out'', ''cpython-3.12.1''])
          \<lparr>fs = installed_tree, trace = []\<rparr>)
     = Some (CalledProcessError
         [''install_name_tool'', ''-id'', ''@executable_path/../lib/b.dylib'',
          ''out/cpython-3.12.1/lib/b.dylib''])
   \<and> commands (trace (snd (update_macos_dylib_ids flaky_env (RelPath [''out'', ''cpython-3.12.1''])
          \<lparr>fs = installed_tree, trace = []\<rparr>)))
     = [[''install_name_tool'', ''-id'', ''@executable_path/../lib/a.dylib'',
          ''out/cpython-3.12.1/lib/a.dylib''],
        [''install_name_tool'', ''-id'', ''@executable_path/../lib/b.dylib'',
          ''out/cpython-3.12.1/lib/b.dylib'']]
   \<and> fst (update_macos_dylib_ids dylibs_env (RelPath [''out'', ''cpython-3.12.1''])
          \<lparr>fs = installed_tree, trace = []\<rparr>) = None
   \<and> commands (trace (snd (update_macos_dylib_ids dylibs_env (RelPath [''out'', ''cpython-3.12.1''])
          \<lparr>fs = installed_tree, trace = []\<rparr>)))
     = [[''install_name_tool'', ''-id'', ''@executable_path/../lib/a.dylib'',
          ''out/cpython-3.12.1/lib/a.dylib''],
        [''install_name_tool'', ''-id'', ''@executable_path/../lib/b.dylib'',
          ''out/cpython-3.12.1/lib/b.dylib''],
        [''install_name_tool'', ''-id'', ''@executable_path/../lib/c.dylib'',
          ''out/cpython-3.12.1/lib/c.dylib'']]
   \<and> (\<exists>failed_at before after.
        glob flaky_env (fs \<lparr>fs = installed_tree, trace = []\<rparr>) True
          (child (child (child (RelPath [''out'', ''cpython-3.12.1'']) ''lib'') ''**'') ''*.dylib'')
          = before @ failed_at # after
        \<and> patch_command (RelPath [''out'', ''cpython-3.12.1'']) failed_at
          = [''install_name_tool'', ''-id'', ''@executable_path/../lib/b.dylib'',
             ''out/cpython-3.12.1/lib/b.dylib''])
   \<and> last (commands (trace (snd (update_macos_dylib_ids flaky_env
          (RelPath [''out'', ''cpython-3.12.1'']) \<lparr>fs = installed_tree, trace = []\<rparr>))))
     = [''install_name_tool'', ''-id'', ''@executable_path/../lib/b.dylib'',
        ''out/cpython-3.12.1/lib/b.dylib'']"
proof -
  note stop = update_macos_dylib_ids_invocations
      [where e = flaky_env and install_root = "RelPath [''out'', ''cpython-3.12.1'']"
         and w = "\<lparr>fs = installed_tree, trace = []\<rparr>"
         and pre = "[RelPath [''out'', ''cpython-3.12.1'', ''lib'', ''a.dylib'']]"
         and d = "RelPath [''out'', ''cpython-3.12.1'', ''lib'', ''b.dylib'']"
         and post = "[RelPath [''out'', ''cpython-3.12.1'', ''lib'', ''c.dylib'']]"
         and ?w1.0 = "\<lparr>fs = installed_tree,
               trace = [Info (FoundDylib ''out/cpython-3.12.1/lib/a.dylib''),
                        Ran [''install_name_tool'', ''-id'',
                             ''@executable_path/../lib/a.dylib'',
                             ''out/cpython-3.12.1/lib/a.dylib'']]\<rparr>"
         and rel = "RelPath [''lib'', ''b.dylib'']",
       THEN conjunct2, THEN conjunct2, THEN conjunct1, THEN mp,
       OF conjI[OF flaky_glob conjI[OF flaky_first conjI[OF flaky_second_rel flaky_second_fails]]]]
  note all = update_macos_dylib_ids_invocations
      [where e = dylibs_env and install_root = "RelPath [''out'', ''cpython-3.12.1'']"
         and w = "\<lparr>fs = installed_tree, trace = []\<rparr>",
       THEN conjunct2, THEN conjunct1, THEN mp, OF dylibs_no_error]
  note first = update_macos_dylib_ids_invocations
      [where e = flaky_env and install_root = "RelPath [''out'', ''cpython-3.12.1'']"
         and w = "\<lparr>fs = installed_tree, trace = []\<rparr>"
         and err = "CalledProcessError (patch_command (RelPath [''out'', ''cpython-3.12.1''])
                      (RelPath [''out'', ''cpython-3.12.1'', ''lib'', ''b.dylib'']))",
       THEN conjunct2, THEN conjunct2, THEN conjunct2, THEN conjunct1, THEN mp,
       OF stop[THEN conjunct1]]
  note lastc = update_macos_dylib_ids_invocations
      [where e = flaky_env and install_root = "RelPath [''out'', ''cpython-3.12.1'']"
         and w = "\<lparr>fs = installed_tree, trace = []\<rparr>"
         and cmd = "patch_command (RelPath [''out'', ''cpython-3.12.1''])
                      (RelPath [''out'', ''cpython-3.12.1'', ''lib'', ''b.dylib''])",
       THEN conjunct2, THEN conjunct2, THEN conjunct2, THEN conjunct2, THEN mp,
       OF stop[THEN conjunct1], THEN conjunct2]
  from first obtain failed_at before after w_before where f:
    "glob flaky_env (fs \<lparr>fs = installed_tree, trace = []\<rparr>) True
          (child (child (child (RelPath [''out'', ''cpython-3.12.1'']) ''lib'') ''**'') ''*.dylib'')
       = before @ failed_at # after"
    "relative_to failed_at (RelPath [''out'', ''cpython-3.12.1''])
       = Inl (CalledProcessError (patch_command (RelPath [''out'', ''cpython-3.12.1''])
                      (RelPath [''out'', ''cpython-3.12.1'', ''lib'', ''b.dylib''])))
     \<or> CalledProcessError (patch_command (RelPath [''out'', ''cpython-3.12.1''])
                      (RelPath [''out'', ''cpython-3.12.1'', ''lib'', ''b.dylib'']))
       = CalledProcessError (patch_command (RelPath [''out'', ''cpython-3.12.1'']) failed_at)"
    by (elim exE conjE disjE) (rule that, assumption, simp)+
  from f(2) have "patch_command (RelPath [''out'', ''cpython-3.12.1'']) failed_at
      = patch_command (RelPath [''out'', ''cpython-3.12.1''])
          (RelPath [''out'', ''cpython-3.12.1'', ''lib'', ''b.dylib''])"
  proof
    assume "relative_to failed_at (RelPath [''out'', ''cpython-3.12.1''])
       = Inl (CalledProcessError (patch_command (RelPath [''out'', ''cpython-3.12.1''])
                      (RelPath [''out'', ''cpython-3.12.1'', ''lib'', ''b.dylib''])))"
    from relative_to_Inl[OF this] show ?thesis by simp
  next
    assume "CalledProcessError (patch_command (RelPath [''out'', ''cpython-3.12.1''])
                      (RelPath [''out'', ''cpython-3.12.1'', ''lib'', ''b.dylib'']))
       = CalledProcessError (patch_command (RelPath [''out'', ''cpython-3.12.1'']) failed_at)"
    then show ?thesis by simp
  qed
  with f(1) have "glob flaky_env (fs \<lparr>fs = installed_tree, trace = []\<rparr>) True
          (child (child (child (RelPath [''out'', ''cpython-3.12.1'']) ''lib'') ''**'') ''*.dylib'')
          = before @ failed_at # after
        \<and> patch_command (RelPath [''out'', ''cpython-3.12.1'']) failed_at
          = [''install_name_tool'', ''-id'', ''@executable_path/../lib/b.dylib'',
             ''out/cpython-3.12.1/lib/b.dylib'']"
    unfolding flaky_failed_command by (intro conjI)
  then have 5: "\<exists>failed_at before after.
        glob flaky_env (fs \<lparr>fs = installed_tree, trace = []\<rparr>) True
          (child (child (child (RelPath [''out'', ''cpython-3.12.1'']) ''lib'') ''**'') ''*.dylib'')
          = before @ failed_at # after
        \<and> patch_command (RelPath [''out'', ''cpython-3.12.1'']) failed_at
          = [''install_name_tool'', ''-id'', ''@executable_path/../lib/b.dylib'',
             ''out/cpython-3.12.1/lib/b.dylib'']"
    by (intro exI)
  show ?thesis
    using stop all dylibs_no_error 5 lastc
    unfolding flaky_commands flaky_failed_command dylibs_commands
    by (intro conjI) (elim conjE, assumption)+
qed

text \<open>
  C8 as stated fails: when the tool fails on the first of two libraries, the loop
  ends there, and the tool is never run on the second.
\<close>

theorem update_macos_dylib_ids_counterexample:
  "glob failing_env (fs world_packaged) True
     (child (child (child (RelPath [''out'', ''cpython-3.12.1'']) ''lib'') ''**'') ''*.dylib'')
   = [RelPath [''out'', ''cpython-3.12.1'', ''lib'', ''a.dylib''],
      RelPath [''out'', ''cpython-3.12.1'', ''lib'', ''b.dylib'']]
   \<and> commands (trace (snd (update_macos_dylib_ids failing_env (RelPath [''out'', ''cpython-3.12.1''])
        \<lparr>fs = installed_tree, trace = []\<rparr>)))
   = [[''install_name_tool'', ''-id'', ''@executable_path/../lib/a.dylib'',
       ''out/cpython-3.12.1/lib/a.dylib'']]"
  by code_simp

text \<open>
  C9. After the cache cleanup of the tree under \<open>dir_path\<close>: no path below it that ends
  in \<^verbatim>\<open>__pycache__\<close> is a directory; every path that was, or was inside, such a
  directory is gone; every other path is the file with the content it had, or the
  directory it was.
\<close>

theorem clean_pycache_dirs_removes:
  "(r \<noteq> [] \<and> last r = ''__pycache__'' \<longrightarrow>
      \<not> is_dir (fs (clean_pycache_dirs e dir_path w)) (locate e dir_path @ r))
   \<and> (in_pycache_under (fs w) (locate e dir_path) q \<longrightarrow>
      lookup (fs (clean_pycache_dirs e dir_path w)) q = None)
   \<and> (\<not> in_pycache_under (fs w) (locate e dir_path) q \<longrightarrow>
      read_file (fs (clean_pycache_dirs e dir_path w)) q = read_file (fs w) q
      \<and> is_dir (fs (clean_pycache_dirs e dir_path w)) q = is_dir (fs w) q)"
proof (cases "lookup (fs w) (locate e dir_path)")
  case None
  then show ?thesis
    by (simp add: clean_pycache_dirs_def in_pycache_under_def is_dir_def lookup_append)
next
  case (Some n)
  define rp where "rp = locate e dir_path"
  define t where "t = modify_at (\<lambda>n. fst (walk rp n)) rp (fs w)"
  have f: "fs (clean_pycache_dirs e dir_path w) = t"
    using Some by (simp add: clean_pycache_dirs_def t_def rp_def)
  have under: "lookup t (rp @ x) = lookup (fst (walk rp n)) x" for x
    using Some by (simp add: t_def lookup_modify_at_under rp_def)
  have orig: "lookup (fs w) (rp @ x) = lookup n x" for x
    using Some by (simp add: lookup_append rp_def)
  have 1: "r \<noteq> [] \<and> last r = ''__pycache__'' \<longrightarrow> \<not> is_dir t (rp @ r)"
    using walk_no_pycache[of r rp n] by (simp add: is_dir_def under)
  have 2: "in_pycache_under (fs w) rp q \<longrightarrow> lookup t q = None"
  proof
    assume a: "in_pycache_under (fs w) rp q"
    then obtain x where q: "q = rp @ x" by (auto simp: in_pycache_under_def prefix_def)
    then have "inside_pycache n x" using a Some by (simp add: in_pycache_under_def rp_def)
    then show "lookup t q = None" unfolding q under by (rule walk_removes)
  qed
  have 3: "\<not> in_pycache_under (fs w) rp q \<longrightarrow>
      read_file t q = read_file (fs w) q \<and> is_dir t q = is_dir (fs w) q"
  proof
    assume a: "\<not> in_pycache_under (fs w) rp q"
    show "read_file t q = read_file (fs w) q \<and> is_dir t q = is_dir (fs w) q"
    proof (cases "prefix rp q")
      case False
      then show ?thesis unfolding t_def by (simp add: modify_at_frame)
    next
      case True
      then obtain x where q: "q = rp @ x" by (auto simp: prefix_def)
      then have ni: "\<not> inside_pycache n x" using a Some by (simp add: in_pycache_under_def rp_def)
      show ?thesis
        using walk_preserves[OF ni, of rp]
        unfolding q read_file_def is_dir_def under orig by simp
    qed
  qed
  show ?thesis using 1 2 3 unfolding f rp_def by blast
qed

text \<open>C9, on the installed tree: the cache directory under \<^verbatim>\<open>lib\<close> is gone with its content,
  the module beside it is untouched.\<close>

theorem clean_pycache_dirs_removes_witness:
  "\<not> is_dir (fs (clean_pycache_dirs build_env (AbsPath [''home'', ''out'']) world_packaged))
       [''home'', ''out'', ''cpython-3.12.1'', ''lib'', ''__pycache__'']
   \<and> lookup (fs (clean_pycache_dirs build_env (AbsPath [''home'', ''out'']) world_packaged))
       [''home'', ''out'', ''cpython-3.12.1'', ''lib'', ''__pycache__'', ''os.pyc''] = None
   \<and> read_file (fs (clean_pycache_dirs build_env (AbsPath [''home'', ''out'']) world_packaged))
       [''home'', ''out'', ''cpython-3.12.1'', ''lib'', ''os.py''] = Some ''prefix = /home/out''"
proof -
  have l: "locate build_env (AbsPath [''home'', ''out'']) = [''home'', ''out'']"
    by (simp add: locate_def)
  have h1: "[''cpython-3.12.1'', ''lib'', ''__pycache__''] \<noteq> []
      \<and> last [''cpython-3.12.1'', ''lib'', ''__pycache__''] = ''__pycache__''"
    by simp
  have h2: "in_pycache_under (fs world_packaged) [''home'', ''out'']
      [''home'', ''out'', ''cpython-3.12.1'', ''lib'', ''__pycache__'', ''os.pyc'']"
    by code_simp
  have h3: "\<not> in_pycache_under (fs world_packaged) [''home'', ''out'']
      [''home'', ''out'', ''cpython-3.12.1'', ''lib'', ''os.py'']"
    by code_simp
  have v: "read_file (fs world_packaged) [''home'', ''out'', ''cpython-3.12.1'', ''lib'', ''os.py'']
      = Some ''prefix = /home/out''"
    by code_simp
  have 1: "\<not> is_dir (fs (clean_pycache_dirs build_env (AbsPath [''home'', ''out'']) world_packaged))
       [''home'', ''out'', ''cpython-3.12.1'', ''lib'', ''__pycache__'']"
    using clean_pycache_dirs_removes[of "[''cpython-3.12.1'', ''lib'', ''__pycache__'']"
        build_env "AbsPath [''home'', ''out'']" world_packaged, THEN conjunct1] h1
    by (simp add: l)
  have 2: "lookup (fs (clean_pycache_dirs build_env (AbsPath [''home'', ''out'']) world_packaged))
       [''home'', ''out'', ''cpython-3.12.1'', ''lib'', ''__pycache__'', ''os.pyc''] = None"
    using clean_pycache_dirs_removes[of _ build_env "AbsPath [''home'', ''out'']" world_packaged
        "[''home'', ''out'', ''cpython-3.12.1'', ''lib'', ''__pycache__'', ''os.pyc'']",
        THEN conjunct2, THEN conjunct1] h2
    by (simp add: l)
  have 3: "read_file (fs (clean_pycache_dirs build_env (AbsPath [''home'', ''out'']) world_packaged))
       [''home'', ''out'', ''cpython-3.12.1'', ''lib'', ''os.py''] = Some ''prefix = /home/out''"
    using clean_pycache_dirs_removes[of _ build_env "AbsPath [''home'', ''out'']" world_packaged
        "[''home'', ''out'', ''cpython-3.12.1'', ''lib'', ''os.py'']",
        THEN conjunct2, THEN conjunct2] h3 v
    by (simp add: l)
  show ?thesis using 1 2 3 by (intro conjI)
qed

text \<open>
  C10. The replace pass of the builder's replacement step covers \<^verbatim>\<open>bin/*\<close> and
  \<^verbatim>\<open>lib/**/*.py\<close> under the root; a file outside these two expansions keeps its bytes
  and is not written, and if the verification pattern \<^verbatim>\<open>**/*\<close> covers it, its
  occurrences of the old path are in the count the step ends with as a warning.
\<close>

theorem replace_step_leaves_other_files:
  assumes "q \<notin> set (file_set e (fs w)
                  [child (child python_root ''bin'') ''*'',
                   child (child (child python_root ''lib'') ''**'') ''*.py''])"
  shows "read_file (fs (replace_absolute_paths e python_root old new w)) q = read_file (fs w) q
       \<and> Wrote q \<notin> set (drop (length (trace w))
              (trace (replace_absolute_paths e python_root old new w)))
       \<and> (q \<in> set (file_set e (fs (replace_absolute_paths e python_root old new w))
                     [child (child python_root ''**'') ''*''])
            \<and> 0 < matches_in (fs w) old q \<longrightarrow>
          (\<exists>m\<ge>matches_in (fs w) old q.
             last (trace (replace_absolute_paths e python_root old new w))
               = Warn (MatchesFound m old)))"
proof -
  define pats where "pats = [child (child python_root ''bin'') ''*'',
                   child (child (child python_root ''lib'') ''**'') ''*.py'']"
  define w0 where "w0 = info (Replacing (map str_path pats) old new) (info Blank w)"
  define w3 where "w3 = snd (search_replace_in_files e pats old (Some new) w0)"
  define m where "m = sum_list (map (matches_in (fs w3) old)
                 (file_set e (fs w3) [child (child python_root ''**'') ''*'']))"
  have f0: "fs w0 = fs w"
    and t0: "trace w0 = trace w @ [Info Blank, Info (Replacing (map str_path pats) old new)]"
    by (simp_all add: w0_def info_simps)
  have fsr: "fs (replace_absolute_paths e python_root old new w) = fs w3"
    and trr: "trace (replace_absolute_paths e python_root old new w) =
           trace w3 @ [Info Blank, Info SanityChecking,
                       if m \<noteq> 0 then Warn (MatchesFound m old) else Info NoPathsFound]"
    using replace_absolute_paths_result[of w3 e python_root old new w m]
    by (simp_all add: w3_def w0_def pats_def m_def)
  have q: "q \<notin> set (file_set e (fs w0) pats)"
    using assms by (simp add: f0 pats_def)
  have r: "read_file (fs w3) q = read_file (fs w) q"
    unfolding w3_def using search_replace_other[OF q] by (simp add: f0)
  have t3: "trace w3 = trace w0 @ map Wrote (filter (\<lambda>p. matches_in (fs w0) old p \<noteq> 0)
                            (file_set e (fs w0) pats))"
    unfolding w3_def by (simp add: search_replace_trace)
  have 1: "read_file (fs (replace_absolute_paths e python_root old new w)) q = read_file (fs w) q"
    unfolding fsr by (rule r)
  have 2: "Wrote q \<notin> set (drop (length (trace w))
              (trace (replace_absolute_paths e python_root old new w)))"
    unfolding trr t3 t0 using q by auto
  have 3: "\<exists>m\<ge>matches_in (fs w) old q.
             last (trace (replace_absolute_paths e python_root old new w))
               = Warn (MatchesFound m old)"
    if a: "q \<in> set (file_set e (fs (replace_absolute_paths e python_root old new w))
                     [child (child python_root ''**'') ''*''])"
      and b: "0 < matches_in (fs w) old q"
  proof -
    have "matches_in (fs w3) old q \<le> m"
      unfolding m_def using a[unfolded fsr] by (intro member_le_sum_list) auto
    moreover have "matches_in (fs w3) old q = matches_in (fs w) old q"
      by (simp add: matches_in_def r)
    ultimately have le: "matches_in (fs w) old q \<le> m" by simp
    then have "m \<noteq> 0" using b by simp
    then have "last (trace (replace_absolute_paths e python_root old new w)) = Warn (MatchesFound m old)"
      unfolding trr by simp
    then show ?thesis using le by (intro exI[of _ m]) simp
  qed
  show ?thesis using 1 2 3 by (intro conjI impI) auto
qed

text \<open>C10, at \<^verbatim>\<open>lib/site.cfg\<close>: outside the two patterns, it keeps the old path, and the
  warning counts it.\<close>

theorem replace_step_leaves_other_files_witness:
  "read_file (fs (replace_absolute_paths build_env (RelPath [''out'', ''cpython-3.12.1''])
      ''/home/out'' ''out'' world_patched))
      [''home'', ''out'', ''cpython-3.12.1'', ''lib'', ''site.cfg''] = Some ''home = /home/out''
   \<and> (\<exists>m\<ge>1. last (trace (replace_absolute_paths build_env (RelPath [''out'', ''cpython-3.12.1''])
      ''/home/out'' ''out'' world_patched)) = Warn (MatchesFound m ''/home/out''))"
proof -
  have h: "[''home'', ''out'', ''cpython-3.12.1'', ''lib'', ''site.cfg'']
      \<notin> set (file_set build_env (fs world_patched)
          [child (child (RelPath [''out'', ''cpython-3.12.1'']) ''bin'') ''*'',
           child (child (child (RelPath [''out'', ''cpython-3.12.1'']) ''lib'') ''**'') ''*.py''])"
    by code_simp
  have c: "[''home'', ''out'', ''cpython-3.12.1'', ''lib'', ''site.cfg'']
      \<in> set (file_set build_env
          (fs (replace_absolute_paths build_env (RelPath [''out'', ''cpython-3.12.1''])
                 ''/home/out'' ''out'' world_patched))
          [child (child (RelPath [''out'', ''cpython-3.12.1'']) ''**'') ''*''])"
    by code_simp
  have v: "read_file (fs world_patched) [''home'', ''out'', ''cpython-3.12.1'', ''lib'', ''site.cfg'']
      = Some ''home = /home/out''"
    by code_simp
  have n: "matches_in (fs world_patched) ''/home/out''
      [''home'', ''out'', ''cpython-3.12.1'', ''lib'', ''site.cfg''] = 1"
    by code_simp
  show ?thesis
    using replace_step_leaves_other_files[OF h, of "''/home/out''" "''out''"] c
    by (simp add: v n)
qed

end
